theory Spec2Isabelle
  imports Main
begin

section \<open>Python values the grading code relies on\<close>

text \<open>
  Exceptions are values: every function that can raise returns \<open>py_error + 'a\<close>,
  \<open>Inl\<close> carrying the exception class. \<open>ParseError\<close> is the one the XML
  library raises on a document that is not well formed.
\<close>

datatype py_error =
  TypeError | AttributeError | KeyError | ValueError | NameError | ParseError

text \<open>
  The exception hierarchy: \<open>LookupError\<close> is the base class of \<open>KeyError\<close>
  (and of \<open>IndexError\<close>, which nothing here raises); \<open>AttributeError\<close>,
  \<open>TypeError\<close> and \<open>ValueError\<close> are not below it.
\<close>

fun is_LookupError :: "py_error \<Rightarrow> bool" where
  "is_LookupError KeyError = True"
| "is_LookupError _ = False"

subsection \<open>The builtin \<open>int(text, base)\<close> on ASCII text\<close>

text \<open>
  \<open>int(s)\<close> and \<open>int(s, 16)\<close>: surrounding whitespace is skipped, one sign is
  allowed, base 16 allows a \<open>0x\<close>/\<open>0X\<close> prefix (and one underscore after it),
  digits may be separated by single underscores, and anything else raises
  \<open>ValueError\<close>. \<open>int(None)\<close> raises \<open>TypeError\<close>.
\<close>

definition is_space :: "char \<Rightarrow> bool" where
  "is_space c = (c \<in> set [CHR '' '', CHR 0x09, CHR 0x0A, CHR 0x0B, CHR 0x0C, CHR 0x0D])"

definition digit_value :: "char \<Rightarrow> nat" where
  "digit_value c =
     (let n = of_char c :: nat in
      if 48 \<le> n \<and> n \<le> 57 then n - 48
      else if 97 \<le> n \<and> n \<le> 122 then n - 87
      else if 65 \<le> n \<and> n \<le> 90 then n - 55
      else 37)"

definition is_digit :: "nat \<Rightarrow> char \<Rightarrow> bool" where
  "is_digit base c = (digit_value c < base)"

fun strip_prefix :: "nat \<Rightarrow> string \<Rightarrow> string" where
  "strip_prefix base (a # b # s) =
     (if a = CHR ''0'' \<and> base = 16 \<and> (b = CHR ''x'' \<or> b = CHR ''X'')
      then (case s of c # s' \<Rightarrow> if c = CHR ''_'' then s' else s | [] \<Rightarrow> s)
      else a # b # s)"
| "strip_prefix base s = s"

text \<open>
  The digit scan: \<open>prev\<close> says whether the character before was an underscore.
  The result is the value read so far and the unread rest, or \<open>None\<close> at a
  doubled underscore.
\<close>

fun scan_digits :: "nat \<Rightarrow> bool \<Rightarrow> nat \<Rightarrow> string \<Rightarrow> (nat \<times> bool \<times> string) option" where
  "scan_digits base prev acc [] = Some (acc, prev, [])"
| "scan_digits base prev acc (c # s) =
     (if c = CHR ''_'' then (if prev then None else scan_digits base True acc s)
      else if is_digit base c then scan_digits base False (acc * base + digit_value c) s
      else Some (acc, prev, c # s))"

definition py_int_str :: "nat \<Rightarrow> string \<Rightarrow> py_error + int" where
  "py_int_str base s0 =
     (let s1 = dropWhile is_space s0;
          (neg, s2) = (case s1 of
                         c # r \<Rightarrow> if c = CHR ''+'' then (False, r)
                                  else if c = CHR ''-'' then (True, r)
                                  else (False, s1)
                       | [] \<Rightarrow> (False, s1));
          s3 = strip_prefix base s2
      in case s3 of
           [] \<Rightarrow> Inl ValueError
         | c # _ \<Rightarrow>
             if \<not> is_digit base c then Inl ValueError
             else (case scan_digits base False 0 s3 of
                     None \<Rightarrow> Inl ValueError
                   | Some (n, prev, rest) \<Rightarrow>
                       if prev \<or> dropWhile is_space rest \<noteq> [] then Inl ValueError
                       else Inr (if neg then - int n else int n)))"

definition py_int :: "nat \<Rightarrow> string option \<Rightarrow> py_error + int" where
  "py_int base t = (case t of None \<Rightarrow> Inl TypeError | Some s \<Rightarrow> py_int_str base s)"

subsection \<open>XML elements\<close>

text \<open>
  An element of \<open>xml.etree.ElementTree\<close>: its tag, its text (\<open>None\<close> when the
  element has none) and its child elements in document order.
\<close>

datatype Element = Element (tag: string) (elem_text: "string option") (children: "Element list")

text \<open>\<open>element.find(name)\<close>: the first direct child with that tag, or \<open>None\<close>.\<close>

definition find_child :: "Element \<Rightarrow> string \<Rightarrow> Element option" where
  "find_child element name = List.find (\<lambda>c. tag c = name) (children element)"

text \<open>
  The truth value of an element is that of its child sequence: an element with no
  children is false. \<open>a or b\<close> is \<open>a\<close> when \<open>a\<close> is true and \<open>b\<close> otherwise.
\<close>

fun truthy :: "Element option \<Rightarrow> bool" where
  "truthy None = False"
| "truthy (Some e) = (children e \<noteq> [])"

definition py_or :: "Element option \<Rightarrow> Element option \<Rightarrow> Element option" where
  "py_or a b = (if truthy a then a else b)"

section \<open>The memory-analysis adapter (grade/library/valgrind.py)\<close>

definition VALGRIND_ARGS :: "string list" where
  "VALGRIND_ARGS = [''valgrind'', ''--tool=memcheck'', ''--leak-check=yes'', ''--xml=yes'']"

definition VALGRIND_XML_FILE :: string where
  "VALGRIND_XML_FILE = ''valgrind.xml''"

record ValgrindWhat =
  what_text :: "string option"
  what_fields :: "string \<rightharpoonup> string option"

record ValgrindError =
  unique :: int
  tid :: int
  kind :: "string option"
  what :: "ValgrindWhat option"

record 'rt ValgrindReport =
  runtime :: 'rt
  errors :: "ValgrindError list option"

text \<open>The loop of \<open>ValgrindWhat.load\<close> over the children of an \<open>xwhat\<close> element.\<close>

fun load_children :: "Element list \<Rightarrow> string option \<Rightarrow> (string \<rightharpoonup> string option) \<Rightarrow> ValgrindWhat" where
  "load_children [] text flds = \<lparr>what_text = text, what_fields = flds\<rparr>"
| "load_children (child # rest) text flds =
     (if tag child = ''tag'' then load_children rest (elem_text child) flds
      else load_children rest text (flds(tag child \<mapsto> elem_text child)))"

definition ValgrindWhat_load :: "Element option \<Rightarrow> ValgrindWhat option" where
  "ValgrindWhat_load element =
     (case element of
        None \<Rightarrow> None
      | Some el \<Rightarrow>
          if tag el = ''what'' then Some \<lparr>what_text = elem_text el, what_fields = Map.empty\<rparr>
          else Some (load_children (children el) (Some '''') Map.empty))"

text \<open>\<open>element.find(name).text\<close>: the attribute access fails on \<open>None\<close>.\<close>

definition find_text :: "Element \<Rightarrow> string \<Rightarrow> py_error + string option" where
  "find_text element name =
     (case find_child element name of None \<Rightarrow> Inl AttributeError | Some c \<Rightarrow> Inr (elem_text c))"

definition ValgrindError_load :: "Element \<Rightarrow> py_error + ValgrindError" where
  "ValgrindError_load element =
     (case find_text element ''unique'' of
        Inl e \<Rightarrow> Inl e
      | Inr ut \<Rightarrow>
     (case py_int 16 ut of
        Inl e \<Rightarrow> Inl e
      | Inr u \<Rightarrow>
     (case find_text element ''tid'' of
        Inl e \<Rightarrow> Inl e
      | Inr tt \<Rightarrow>
     (case py_int 10 tt of
        Inl e \<Rightarrow> Inl e
      | Inr t \<Rightarrow>
     (case find_text element ''kind'' of
        Inl e \<Rightarrow> Inl e
      | Inr k \<Rightarrow>
          Inr \<lparr>unique = u, tid = t, kind = k,
               what = ValgrindWhat_load
                        (py_or (find_child element ''what'') (find_child element ''xwhat''))\<rparr>)))))"

definition LEAK_KINDS :: "string list" where
  "LEAK_KINDS = [''Leak_DefinitelyLost'', ''Leak_IndirectlyLost'', ''Leak_PossiblyLost'']"

definition is_leak :: "ValgrindError \<Rightarrow> bool" where
  "is_leak error = (case kind error of None \<Rightarrow> False | Some k \<Rightarrow> k \<in> set LEAK_KINDS)"

text \<open>
  \<open>int(error.what.fields[name])\<close>: the attribute access, the subscript and the
  conversion fail in this order.
\<close>

definition field_int :: "ValgrindError \<Rightarrow> string \<Rightarrow> py_error + int" where
  "field_int error name =
     (case what error of
        None \<Rightarrow> Inl AttributeError
      | Some w \<Rightarrow> (case what_fields w name of None \<Rightarrow> Inl KeyError | Some t \<Rightarrow> py_int 10 t))"

fun memory_lost_loop :: "ValgrindError list \<Rightarrow> int \<Rightarrow> int \<Rightarrow> py_error + (int \<times> int)" where
  "memory_lost_loop [] leaked_bytes leaked_blocks = Inr (leaked_bytes, leaked_blocks)"
| "memory_lost_loop (error # rest) leaked_bytes leaked_blocks =
     (if is_leak error then
        (case field_int error ''leakedbytes'' of
           Inl e \<Rightarrow> Inl e
         | Inr b \<Rightarrow>
        (case field_int error ''leakedblocks'' of
           Inl e \<Rightarrow> Inl e
         | Inr k \<Rightarrow> memory_lost_loop rest (leaked_bytes + b) (leaked_blocks + k)))
      else memory_lost_loop rest leaked_bytes leaked_blocks)"

text \<open>Iterating over \<open>None\<close> raises \<open>TypeError\<close>.\<close>

definition memory_lost :: "'rt ValgrindReport \<Rightarrow> py_error + (int \<times> int)" where
  "memory_lost self =
     (case errors self of None \<Rightarrow> Inl TypeError | Some es \<Rightarrow> memory_lost_loop es 0 0)"

text \<open>
  The report file on disk. The XML library is not part of the repository: a file is
  represented by what \<open>parse\<close> makes of it, a document with its root element or a
  \<open>ParseError\<close>.
\<close>

datatype content = Malformed | Document Element

type_synonym fs = "string \<rightharpoonup> content"

text \<open>The loop of \<open>run\<close> over the children of the root.\<close>

fun load_errors :: "Element list \<Rightarrow> ValgrindError list \<Rightarrow> py_error + ValgrindError list" where
  "load_errors [] errs = Inr errs"
| "load_errors (child # rest) errs =
     (if tag child = ''error'' then
        (case ValgrindError_load child of
           Inl e \<Rightarrow> Inl e
         | Inr err \<Rightarrow> load_errors rest (errs @ [err]))
      else load_errors rest errs)"

text \<open>
  \<open>run(*args, timeout)\<close>. The process runner (\<open>process.run\<close>) is the
  parameter \<open>runner\<close>: it takes the command line, the timeout (here \<open>limit\<close>) and
  the file system, and gives the Runtime
  or an exception and the file system the child left behind.
\<close>

definition valgrind_run ::
  "(string list \<Rightarrow> 't \<Rightarrow> fs \<Rightarrow> (py_error + 'rt) \<times> fs) \<Rightarrow> string list \<Rightarrow> 't \<Rightarrow> fs
     \<Rightarrow> (py_error + 'rt ValgrindReport) \<times> fs" where
  "valgrind_run runner args limit fs0 =
     (case runner (VALGRIND_ARGS @ [''--xml-file='' @ VALGRIND_XML_FILE] @ args) limit fs0 of
        (Inl e, fs1) \<Rightarrow> (Inl e, fs1)
      | (Inr rt, fs1) \<Rightarrow>
          (case fs1 VALGRIND_XML_FILE of
             None \<Rightarrow> (Inr \<lparr>runtime = rt, errors = None\<rparr>, fs1)
           | Some Malformed \<Rightarrow> (Inl ParseError, fs1)
           | Some (Document root) \<Rightarrow>
               (case load_errors (children root) [] of
                  Inl e \<Rightarrow> (Inl e, fs1)
                | Inr errs \<Rightarrow>
                    (Inr \<lparr>runtime = rt, errors = Some errs\<rparr>, fs1(VALGRIND_XML_FILE := None)))))"

subsection \<open>Leak entries with and without their fields\<close>

text \<open>
  An entry carries \<open>leakedbytes = b\<close> and \<open>leakedblocks = k\<close> when its explanation
  has both fields and their texts read as these integers; it lacks a leak field when
  its explanation is absent or has no \<open>leakedbytes\<close> or no \<open>leakedblocks\<close>.
\<close>

definition carries :: "ValgrindError \<Rightarrow> int \<Rightarrow> int \<Rightarrow> bool" where
  "carries error b k =
     (case what error of
        None \<Rightarrow> False
      | Some w \<Rightarrow>
          (case (what_fields w ''leakedbytes'', what_fields w ''leakedblocks'') of
             (Some tb, Some tk) \<Rightarrow> py_int 10 tb = Inr b \<and> py_int 10 tk = Inr k
           | _ \<Rightarrow> False))"

definition lacks_leak_field :: "ValgrindError \<Rightarrow> bool" where
  "lacks_leak_field error =
     (case what error of
        None \<Rightarrow> True
      | Some w \<Rightarrow> what_fields w ''leakedbytes'' = None \<or> what_fields w ''leakedblocks'' = None)"

text \<open>
  Two error elements as the tool writes them: an invalid read explained by a
  \<open>what\<close> element, and a definite leak explained by an \<open>xwhat\<close> element.
\<close>

definition invalid_read_element :: Element where
  "invalid_read_element =
     Element ''error'' None
       [Element ''unique'' (Some ''0x1'') [], Element ''tid'' (Some ''1'') [],
        Element ''kind'' (Some ''InvalidRead'') [],
        Element ''what'' (Some ''Invalid read of size 4'') []]"

definition leak_element :: Element where
  "leak_element =
     Element ''error'' None
       [Element ''unique'' (Some ''0x2'') [], Element ''tid'' (Some ''1'') [],
        Element ''kind'' (Some ''Leak_DefinitelyLost'') [],
        Element ''xwhat'' None
          [Element ''tag'' (Some ''definitely lost'') [],
           Element ''leakedbytes'' (Some ''128'') [],
           Element ''leakedblocks'' (Some ''2'') []]]"

section \<open>Grading an assignment (curricula/grade/__init__.py)\<close>

text \<open>
  The classes \<open>GradingAssignment\<close>, \<open>GradingProblem\<close>, \<open>Submission\<close> and
  \<open>Context\<close> are declared in modules that \<open>run\<close> imports; they are modelled by the
  attributes \<open>run\<close> reads and the arguments it passes. Paths stay abstract:
  \<open>'p\<close> is \<open>pathlib.Path\<close>, \<open>'q\<close> the type of \<open>relative_path\<close>, and
  \<open>joinpath\<close> is a parameter of \<open>run\<close>. A problem's \<open>grader.run\<close> takes the
  submission and the context and returns the problem's report (\<open>'r\<close>) or raises. The
  calls to the logger and to the timer only write log lines and are left out.
\<close>

record 'p Submission =
  assignment_path :: 'p
  problem_path :: 'p

record 'o Context =
  options :: 'o

record Grading =
  is_automated :: bool

record ('p, 'q, 'o, 'r) GradingProblem =
  short :: string
  relative_path :: 'q
  grading :: Grading
  grader :: "'p Submission \<Rightarrow> 'o Context \<Rightarrow> py_error + 'r"

record ('p, 'q, 'o, 'r) GradingAssignment =
  problems :: "('p, 'q, 'o, 'r) GradingProblem list"

text \<open>
  Modelled from the spec: \<open>AssignmentReport\<close>, declared in \<open>grade/report.py\<close>,
  which is not among the sources, is "an ordered mapping problem short-name to
  ordered Result sequence; built incrementally". It is an association list in
  insertion order.
\<close>

type_synonym 'r AssignmentReport = "(string \<times> 'r) list"

text \<open>
  Modelled from the spec: \<open>reports[key] = value\<close> on this ordered mapping is the
  item assignment of a dictionary: a key that is already there keeps its place and
  takes the new value, a new key goes to the end.
\<close>

fun setitem :: "'r AssignmentReport \<Rightarrow> string \<Rightarrow> 'r \<Rightarrow> 'r AssignmentReport" where
  "setitem [] key v = [(key, v)]"
| "setitem ((k, old) # rest) key v =
     (if k = key then (k, v) # rest else (k, old) # setitem rest key v)"

text \<open>Modelled from the spec: the keys of the ordered mapping, in its order.\<close>

definition keys :: "'r AssignmentReport \<Rightarrow> string list" where
  "keys reports = map fst reports"

text \<open>Modelled from the spec: the value the ordered mapping holds for a key.\<close>

definition getitem :: "'r AssignmentReport \<Rightarrow> string \<Rightarrow> 'r option" where
  "getitem reports key = map_of reports key"

text \<open>The body of the loop of \<open>run\<close>, for the problems that pass the filter.\<close>

fun run_problems ::
  "('p \<Rightarrow> 'q \<Rightarrow> 'p) \<Rightarrow> ('p, 'q, 'o, 'r) GradingProblem list \<Rightarrow> 'p \<Rightarrow> 'o
     \<Rightarrow> 'r AssignmentReport \<Rightarrow> py_error + 'r AssignmentReport" where
  "run_problems joinpath [] path opts reports = Inr reports"
| "run_problems joinpath (problem # rest) path opts reports =
     (let submission = \<lparr>assignment_path = path,
                         problem_path = joinpath path (relative_path problem)\<rparr>;
          context = \<lparr>options = opts\<rparr>
      in case grader problem submission context of
           Inl e \<Rightarrow> Inl e
         | Inr report \<Rightarrow>
             run_problems joinpath rest path opts (setitem reports (short problem) report))"

definition grade_run ::
  "('p \<Rightarrow> 'q \<Rightarrow> 'p) \<Rightarrow> ('p, 'q, 'o, 'r) GradingAssignment \<Rightarrow> 'p \<Rightarrow> 'o
     \<Rightarrow> py_error + 'r AssignmentReport" where
  "grade_run joinpath assignment path opts =
     run_problems joinpath (filter (\<lambda>p. is_automated (grading p)) (problems assignment))
       path opts []"

text \<open>
  What the property of \<open>run\<close> speaks of: the automated problems of an assignment in
  the assignment's order, and the submission \<open>run\<close> builds for a problem.
\<close>

definition automated_problems ::
  "('p, 'q, 'o, 'r) GradingAssignment \<Rightarrow> ('p, 'q, 'o, 'r) GradingProblem list" where
  "automated_problems assignment = filter (\<lambda>p. is_automated (grading p)) (problems assignment)"

definition submission_of ::
  "('p \<Rightarrow> 'q \<Rightarrow> 'p) \<Rightarrow> 'p \<Rightarrow> ('p, 'q, 'o, 'r) GradingProblem \<Rightarrow> 'p Submission" where
  "submission_of joinpath path problem =
     \<lparr>assignment_path = path, problem_path = joinpath path (relative_path problem)\<rparr>"

text \<open>
  The order in which a dictionary holds keys assigned one after the other: each key
  at its first occurrence.
\<close>

fun first_occurrences :: "'a list \<Rightarrow> 'a list" where
  "first_occurrences [] = []"
| "first_occurrences (x # xs) = x # filter (\<lambda>y. y \<noteq> x) (first_occurrences xs)"

definition assign_all :: "'r AssignmentReport \<Rightarrow> (string \<times> 'r) list \<Rightarrow> 'r AssignmentReport" where
  "assign_all reports kvs = foldl (\<lambda>r (k, v). setitem r k v) reports kvs"

text \<open>
  An assignment with two automated problems and, between them, one that is graded by
  hand.
\<close>

definition example_assignment :: "(string, string, unit, string list) GradingAssignment" where
  "example_assignment =
     \<lparr>problems =
        [\<lparr>short = ''hw1_sort'', relative_path = ''sort'', grading = \<lparr>is_automated = True\<rparr>,
          grader = (\<lambda>s c. Inr [problem_path s, ''passed''])\<rparr>,
         \<lparr>short = ''hw1_essay'', relative_path = ''essay'', grading = \<lparr>is_automated = False\<rparr>,
          grader = (\<lambda>s c. Inl ValueError)\<rparr>,
         \<lparr>short = ''hw1_heap'', relative_path = ''heap'', grading = \<lparr>is_automated = True\<rparr>,
          grader = (\<lambda>s c. Inr [problem_path s, ''failed''])\<rparr>]\<rparr>"

section \<open>The command-line plugin (curricula/grade/plugin.py)\<close>

text \<open>
  The arguments are used as a dictionary (\<open>args.pop\<close>) from names to strings.
  \<open>args.pop(key)\<close> removes the key and gives its value, or raises \<open>KeyError\<close>. The
  files are a map from path to text.
\<close>

type_synonym args = "string \<rightharpoonup> string"

type_synonym files = "string \<rightharpoonup> string"

definition pop :: "args \<Rightarrow> string \<Rightarrow> py_error + (string \<times> args)" where
  "pop a key = (case a key of None \<Rightarrow> Inl KeyError | Some v \<Rightarrow> Inr (v, a(key := None)))"

text \<open>
  \<open>Context(target, args)\<close> as \<open>single\<close> builds it. The context holds the
  dictionary itself, with the entries it has when the grader runs.
\<close>

record 'p TargetContext =
  target :: 'p
  target_options :: args

text \<open>
  \<open>single(grader, args)\<close>. The grader is given by its \<open>run\<close>, which takes the
  context and returns a report or raises. Of the libraries, \<open>absolute\<close> is
  \<open>Path(s).absolute()\<close>, \<open>dump\<close> is the report's \<open>dump()\<close> and \<open>dumps\<close> is
  the text \<open>json.dump(..., indent=2)\<close> writes; the report file then holds that
  text.
\<close>

definition single ::
  "(string \<Rightarrow> 'p) \<Rightarrow> ('p TargetContext \<Rightarrow> py_error + 'rep) \<Rightarrow> ('rep \<Rightarrow> 'j) \<Rightarrow> ('j \<Rightarrow> string)
     \<Rightarrow> args \<Rightarrow> files \<Rightarrow> (py_error + unit) \<times> files" where
  "single absolute the_grader dump dumps a fs =
     (case pop a ''target'' of
        Inl e \<Rightarrow> (Inl e, fs)
      | Inr (t, a1) \<Rightarrow>
          (case the_grader \<lparr>target = absolute t, target_options = a1\<rparr> of
             Inl e \<Rightarrow> (Inl e, fs)
           | Inr report \<Rightarrow>
               (case pop a1 ''report'' of
                  Inl e \<Rightarrow> (Inl e, fs)
                | Inr (path, a2) \<Rightarrow> (Inr (), fs(path \<mapsto> dumps (dump report))))))"

text \<open>
  \<open>GradePlugin.run(cls, parser, args)\<close>. Both branches pass the global name
  \<open>grader\<close>; \<open>globals\<close> gives the graders bound in the namespace the method looks
  the name up in, and a name that is not bound raises \<open>NameError\<close>. The name of the
  called function is looked up first and is bound in both branches.
\<close>

definition GradePlugin_run ::
  "(string \<rightharpoonup> ('p TargetContext \<Rightarrow> py_error + 'rep)) \<Rightarrow> (string \<Rightarrow> 'p) \<Rightarrow> ('rep \<Rightarrow> 'j)
     \<Rightarrow> ('j \<Rightarrow> string)
     \<Rightarrow> (('p TargetContext \<Rightarrow> py_error + 'rep) \<Rightarrow> args \<Rightarrow> files \<Rightarrow> (py_error + unit) \<times> files)
     \<Rightarrow> args \<Rightarrow> files \<Rightarrow> (py_error + unit) \<times> files" where
  "GradePlugin_run globals absolute dump dumps summarize a fs =
     (case pop a ''command'' of
        Inl e \<Rightarrow> (Inl e, fs)
      | Inr (command, a1) \<Rightarrow>
          if command = ''single'' then
            (case globals ''grader'' of
               None \<Rightarrow> (Inl NameError, fs)
             | Some the_grader \<Rightarrow> single absolute the_grader dump dumps a1 fs)
          else if command = ''summarize'' then
            (case globals ''grader'' of
               None \<Rightarrow> (Inl NameError, fs)
             | Some the_grader \<Rightarrow> summarize the_grader a1 fs)
          else (Inr (), fs))"

text \<open>
  The module binds \<open>argparse\<close>, \<open>json\<close>, \<open>Path\<close>, \<open>Grader\<close> (the class),
  \<open>Context\<close>, \<open>summarize\<close>, \<open>Plugin\<close>, \<open>MODES\<close>, \<open>single\<close> and
  \<open>GradePlugin\<close>. None of them is a grader, and the name \<open>grader\<close> is bound
  neither in the module nor among the builtins.
\<close>

definition plugin_module_names :: "string list" where
  "plugin_module_names =
     [''argparse'', ''json'', ''Path'', ''Grader'', ''Context'', ''summarize'', ''Plugin'',
      ''MODES'', ''single'', ''GradePlugin'']"

definition plugin_globals :: "string \<rightharpoonup> ('p TargetContext \<Rightarrow> py_error + 'rep)" where
  "plugin_globals name = None"

text \<open>The status the interpreter exits with: 1 after an uncaught exception.\<close>

definition exit_code :: "(py_error + unit) \<Rightarrow> nat" where
  "exit_code r = (case r of Inl e \<Rightarrow> 1 | Inr u \<Rightarrow> 0)"

section \<open>The process runner and the fault test\<close>

text \<open>
  Modelled from the spec: the module \<open>grade.library.process\<close> (\<open>run\<close> and
  \<open>Runtime\<close>) is not among the sources. A Runtime is the snapshot of one execution:
  stdout, stderr, exit code (negative for a signal, \<open>None\<close> when undefined), elapsed
  time and the timeout flag. Time is any linearly ordered type \<open>'t\<close>.
\<close>

record 't Runtime =
  stdout :: string
  stderr :: string
  code :: "int option"
  elapsed :: 't
  timeout :: bool

text \<open>
  Modelled from the spec: what the operating system would do with the spawned child
  if nobody interfered. It ends at some time with an exit status or by a signal, or
  never ends; what it has written to both streams by a given time; and the
  processes of its tree.
\<close>

datatype ending = Exited int | Signaled nat

record 't child =
  ends :: "('t \<times> ending) option"
  stdout_by :: "'t \<Rightarrow> string"
  stderr_by :: "'t \<Rightarrow> string"
  tree :: "nat list"

text \<open>
  Modelled from the spec: the exit code of a child that ended. "On normal exit:
  captures the real exit status. On signal termination: exit code is the negative
  signal number (e.g., -11 for segmentation fault)."
\<close>

definition exit_code_of :: "ending \<Rightarrow> int" where
  "exit_code_of e = (case e of Exited status \<Rightarrow> status | Signaled signum \<Rightarrow> - int signum)"

text \<open>
  Modelled from the spec: what the runner does when the deadline passes. "On expiry:
  forcibly terminates the process tree, sets timeout=true, exit code undefined,
  output reflects whatever was produced." The second component is the set of
  processes the runner terminated.
\<close>

definition expired :: "'t child \<Rightarrow> 't \<Rightarrow> 't Runtime \<times> nat set" where
  "expired c deadline =
     (\<lparr>stdout = stdout_by c deadline, stderr = stderr_by c deadline, code = None,
       elapsed = deadline, timeout = True\<rparr>, set (tree c))"

text \<open>
  Modelled from the spec: \<open>run(command, args, timeout)\<close>, which is not among the
  sources, applied to the child the command spawns. It captures the output and
  enforces the deadline: a child that ends before the deadline gives the Runtime of
  its ending, and the runner terminates nothing; otherwise the deadline expires.
\<close>

definition process_run :: "('t::linorder) child \<Rightarrow> 't \<Rightarrow> 't Runtime \<times> nat set" where
  "process_run c deadline =
     (case ends c of
        None \<Rightarrow> expired c deadline
      | Some (t, e) \<Rightarrow>
          if t < deadline then
            (\<lparr>stdout = stdout_by c t, stderr = stderr_by c t, code = Some (exit_code_of e),
              elapsed = t, timeout = False\<rparr>, {})
          else expired c deadline)"

subsection \<open>The test \<open>test_fault\<close> (tests/correctness/tests.py)\<close>

text \<open>
  The logger is addressed by an indentation depth (0 when it is called directly) and
  appends one line made of the values it is given. \<open>CorrectnessResult\<close> takes the
  verdict and the Runtime.
\<close>

datatype log_value = Text string | Code "int option"

type_synonym logger = "(nat \<times> log_value list) list"

record 't CorrectnessResult =
  passing :: bool
  result_runtime :: "'t Runtime"

text \<open>\<open>s.split("\n")\<close> and \<open>s.strip()\<close> on ASCII text.\<close>

fun split_on :: "char \<Rightarrow> string \<Rightarrow> string list" where
  "split_on sep [] = [[]]"
| "split_on sep (c # s) =
     (if c = sep then [] # split_on sep s
      else (case split_on sep s of
              [] \<Rightarrow> [[c]]
            | w # ws \<Rightarrow> (c # w) # ws))"

definition is_whitespace :: "char \<Rightarrow> bool" where
  "is_whitespace c =
     (let n = of_char c :: nat in (9 \<le> n \<and> n \<le> 13) \<or> (28 \<le> n \<and> n \<le> 32))"

definition strip :: "string \<Rightarrow> string" where
  "strip s = rev (dropWhile is_whitespace (rev (dropWhile is_whitespace s)))"

text \<open>
  \<open>test_fault(log, program)\<close>: \<open>execute\<close> is \<open>program.execute\<close>, which takes the
  arguments and the timeout, and \<open>one_second\<close> is the timeout \<open>1.0\<close> the test
  passes.
\<close>

definition test_fault ::
  "(string list \<Rightarrow> 't \<Rightarrow> 't Runtime) \<Rightarrow> 't \<Rightarrow> logger \<Rightarrow> 't CorrectnessResult \<times> logger" where
  "test_fault execute one_second log0 =
     (let runtime = execute [''fault''] one_second in
      if code runtime \<noteq> Some 0 then
        (let log1 = log0 @ [(2, [Text ''received return code'', Code (code runtime)])];
             log2 = log1 @ map (\<lambda>line. (4, [Text line]))
                             (filter (\<lambda>line. line \<noteq> []) (split_on (CHR 0x0A) (stderr runtime)));
             log3 = (if code runtime = Some (- 11)
                     then log2 @ [(4, [Text ''segmentation fault''])] else log2)
         in (\<lparr>passing = False, result_runtime = runtime\<rparr>, log3))
      else
        (let is_pass = (strip (stdout runtime) = ''pass'');
             log1 = log0 @ [(0, [Text ''expected pass, got fail''])]
         in (\<lparr>passing = is_pass, result_runtime = runtime\<rparr>, log1)))"

text \<open>A child that writes one line and dies of a segmentation fault (signal 11).\<close>

definition segfault_child :: "nat child" where
  "segfault_child =
     \<lparr>ends = Some (20, Signaled 11), stdout_by = (\<lambda>t. if t < 10 then [] else ''starting''),
      stderr_by = (\<lambda>t. []), tree = [4242]\<rparr>"

text \<open>A child that prints and then hangs, with one process below it.\<close>

definition hanging_child :: "nat child" where
  "hanging_child =
     \<lparr>ends = None, stdout_by = (\<lambda>t. if t < 10 then [] else ''starting''),
      stderr_by = (\<lambda>t. []), tree = [4242, 4243]\<rparr>"

section \<open>Dumping a report and reading it back\<close>

subsection \<open>Literal structures\<close>

text \<open>
  What \<open>dump()\<close> yields and \<open>json.load\<close> gives back: \<open>None\<close>, booleans,
  integers, strings, lists, and dictionaries with string keys, which keep the order
  of insertion. A string is a list of characters with code points below 256.
  Floating-point numbers are left out.
\<close>

datatype literal =
  PyNone
| PyBool bool
| PyInt int
| PyStr string
| PyList "literal list"
| PyDict "(string \<times> literal) list"

text \<open>
  Modelled from the spec: \<open>Result\<close> and the \<open>dump()\<close> of \<open>AssignmentReport\<close> are
  declared in \<open>grade/report.py\<close>, which is not among the sources. The persisted report
  is an object whose keys are the problem short names in order, each value the
  ordered array of \<open>{name, status, details, log}\<close>; the status is one of
  \<open>passed\<close>, \<open>failed\<close>, \<open>skipped\<close>, the details are a free-form map and the log is
  a sequence of entries.
\<close>

record Result =
  name :: string
  status :: string
  details :: "(string \<times> literal) list"
  log :: "literal list"

text \<open>
  Modelled from the spec: the \<open>dump()\<close> of one Result, the object
  \<open>{name, status, details, log}\<close>.
\<close>

definition Result_dump :: "Result \<Rightarrow> literal" where
  "Result_dump r =
     PyDict [(''name'', PyStr (name r)), (''status'', PyStr (status r)),
             (''details'', PyDict (details r)), (''log'', PyList (log r))]"

text \<open>
  Modelled from the spec: the \<open>dump()\<close> of an \<open>AssignmentReport\<close>, the object
  whose keys are the problem short names in the report's order, each with the array
  of its dumped Results.
\<close>

definition AssignmentReport_dump :: "Result list AssignmentReport \<Rightarrow> literal" where
  "AssignmentReport_dump reports =
     PyDict (map (\<lambda>(short_name, results). (short_name, PyList (map Result_dump results))) reports)"

text \<open>
  A literal is well formed when no dictionary in it has a key twice, as holds of
  every dictionary.
\<close>

fun well_formed :: "literal \<Rightarrow> bool"
  and well_formed_list :: "literal list \<Rightarrow> bool"
  and well_formed_items :: "(string \<times> literal) list \<Rightarrow> bool" where
  "well_formed PyNone = True"
| "well_formed (PyBool b) = True"
| "well_formed (PyInt i) = True"
| "well_formed (PyStr s) = True"
| "well_formed (PyList xs) = well_formed_list xs"
| "well_formed (PyDict kvs) = (distinct (map fst kvs) \<and> well_formed_items kvs)"
| "well_formed_list [] = True"
| "well_formed_list (x # xs) = (well_formed x \<and> well_formed_list xs)"
| "well_formed_items [] = True"
| "well_formed_items (kv # kvs) = (well_formed (snd kv) \<and> well_formed_items kvs)"

definition well_formed_result :: "Result \<Rightarrow> bool" where
  "well_formed_result r = (well_formed (PyDict (details r)) \<and> well_formed_list (log r))"

definition well_formed_report :: "Result list AssignmentReport \<Rightarrow> bool" where
  "well_formed_report reports =
     (distinct (keys reports) \<and> list_all (\<lambda>(k, results). list_all well_formed_result results) reports)"

subsection \<open>\<open>json.dumps(obj, indent=2)\<close>\<close>

text \<open>
  The encoder with \<open>ensure_ascii\<close>: in a string, the quote, the backslash and
  the control characters with a short form are escaped with a backslash, the other
  characters from the space to the tilde stand for themselves, and every other
  character is written \<open>\u00XX\<close>.
\<close>

definition hex_digit :: "nat \<Rightarrow> char" where
  "hex_digit n = (if n < 10 then char_of (48 + n) else char_of (87 + n))"

definition escape_char :: "char \<Rightarrow> string" where
  "escape_char c =
     (if c = CHR 0x22 then [CHR 0x5C, CHR 0x22]
      else if c = CHR 0x5C then [CHR 0x5C, CHR 0x5C]
      else if c = CHR 0x0A then [CHR 0x5C, CHR ''n'']
      else if c = CHR 0x0D then [CHR 0x5C, CHR ''r'']
      else if c = CHR 0x09 then [CHR 0x5C, CHR ''t'']
      else if c = CHR 0x08 then [CHR 0x5C, CHR ''b'']
      else if c = CHR 0x0C then [CHR 0x5C, CHR ''f'']
      else if 32 \<le> (of_char c :: nat) \<and> (of_char c :: nat) \<le> 126 then [c]
      else [CHR 0x5C, CHR ''u'', CHR ''0'', CHR ''0'',
            hex_digit ((of_char c :: nat) div 16), hex_digit ((of_char c :: nat) mod 16)])"

definition encode_string :: "string \<Rightarrow> string" where
  "encode_string s = CHR 0x22 # concat (map escape_char s) @ [CHR 0x22]"

fun digits_of :: "nat \<Rightarrow> string" where
  "digits_of n =
     (if n < 10 then [char_of (48 + n)] else digits_of (n div 10) @ [char_of (48 + n mod 10)])"

declare digits_of.simps [simp del]

definition encode_int :: "int \<Rightarrow> string" where
  "encode_int i = (if i < 0 then CHR ''-'' # digits_of (nat (- i)) else digits_of (nat i))"

definition newline_indent :: "nat \<Rightarrow> string" where
  "newline_indent level = CHR 0x0A # replicate (2 * level) (CHR '' '')"

text \<open>
  A list or dictionary that is not empty is written with each item on a line of its
  own, indented by two spaces for each level; \<open>encode_rest\<close> and \<open>encode_pairs\<close>
  write the items after the first, each after a comma.
\<close>

fun encode :: "nat \<Rightarrow> literal \<Rightarrow> string"
  and encode_rest :: "nat \<Rightarrow> literal list \<Rightarrow> string"
  and encode_pairs :: "nat \<Rightarrow> (string \<times> literal) list \<Rightarrow> string" where
  "encode level PyNone = ''null''"
| "encode level (PyBool b) = (if b then ''true'' else ''false'')"
| "encode level (PyInt i) = encode_int i"
| "encode level (PyStr s) = encode_string s"
| "encode level (PyList []) = ''[]''"
| "encode level (PyList (x # xs)) =
     ''['' @ newline_indent (Suc level) @ encode (Suc level) x @ encode_rest (Suc level) xs
       @ newline_indent level @ '']''"
| "encode level (PyDict []) = ''{}''"
| "encode level (PyDict (kv # kvs)) =
     ''{'' @ newline_indent (Suc level) @ encode_string (fst kv) @ '': ''
       @ encode (Suc level) (snd kv) @ encode_pairs (Suc level) kvs
       @ newline_indent level @ ''}''"
| "encode_rest level [] = []"
| "encode_rest level (x # xs) =
     '','' @ newline_indent level @ encode level x @ encode_rest level xs"
| "encode_pairs level [] = []"
| "encode_pairs level (kv # kvs) =
     '','' @ newline_indent level @ encode_string (fst kv) @ '': '' @ encode level (snd kv)
       @ encode_pairs level kvs"

definition json_dumps :: "literal \<Rightarrow> string" where
  "json_dumps obj = encode 0 obj"

subsection \<open>\<open>json.loads(text)\<close>\<close>

text \<open>
  The decoder. \<open>None\<close> stands for \<open>JSONDecodeError\<close>, and also for a text
  that holds a number with a fraction or an exponent, \<open>NaN\<close>, \<open>Infinity\<close> or an
  escape of a code point above 255, for which the library gives a value that is not
  a \<open>literal\<close>.
\<close>

definition is_json_space :: "char \<Rightarrow> bool" where
  "is_json_space c = (c = CHR '' '' \<or> c = CHR 0x09 \<or> c = CHR 0x0A \<or> c = CHR 0x0D)"

definition skip_space :: "string \<Rightarrow> string" where
  "skip_space s = dropWhile is_json_space s"

definition hex_value :: "char \<Rightarrow> nat option" where
  "hex_value c = (if digit_value c < 16 then Some (digit_value c) else None)"

definition unescape :: "char \<Rightarrow> char option" where
  "unescape e =
     (if e = CHR 0x22 then Some (CHR 0x22)
      else if e = CHR 0x5C then Some (CHR 0x5C)
      else if e = CHR ''/'' then Some (CHR ''/'')
      else if e = CHR ''b'' then Some (CHR 0x08)
      else if e = CHR ''f'' then Some (CHR 0x0C)
      else if e = CHR ''n'' then Some (CHR 0x0A)
      else if e = CHR ''r'' then Some (CHR 0x0D)
      else if e = CHR ''t'' then Some (CHR 0x09)
      else None)"

definition cons_string :: "char \<Rightarrow> (string \<times> string) option \<Rightarrow> (string \<times> string) option" where
  "cons_string c r = (case r of None \<Rightarrow> None | Some (t, rest) \<Rightarrow> Some (c # t, rest))"

text \<open>The string after its opening quote: the decoded string and what follows it.\<close>

fun scan_string :: "string \<Rightarrow> (string \<times> string) option" where
  "scan_string [] = None"
| "scan_string (c # r) =
     (if c = CHR 0x22 then Some ([], r)
      else if c = CHR 0x5C then
        (case r of
           [] \<Rightarrow> None
         | e # r1 \<Rightarrow>
             if e = CHR ''u'' then
               (case r1 of
                  x3 # x2 # x1 # x0 # r2 \<Rightarrow>
                    (case (hex_value x3, hex_value x2, hex_value x1, hex_value x0) of
                       (Some h3, Some h2, Some h1, Some h0) \<Rightarrow>
                         (let n = ((h3 * 16 + h2) * 16 + h1) * 16 + h0
                          in if n < 256 then cons_string (char_of n) (scan_string r2) else None)
                     | _ \<Rightarrow> None)
                | _ \<Rightarrow> None)
             else (case unescape e of
                     None \<Rightarrow> None
                   | Some u \<Rightarrow> cons_string u (scan_string r1)))
      else if (of_char c :: nat) < 32 then None
      else cons_string c (scan_string r))"

text \<open>
  A number: an optional minus sign, then \<open>0\<close> or a digit from 1 to 9 followed by
  digits. A fraction or an exponent after it makes it a floating-point number.
\<close>

definition digits_value :: "string \<Rightarrow> nat" where
  "digits_value ds = foldl (\<lambda>a c. a * 10 + digit_value c) 0 ds"

definition finish_number :: "bool \<Rightarrow> nat \<Rightarrow> string \<Rightarrow> (literal \<times> string) option" where
  "finish_number negative n rest =
     (case rest of
        [] \<Rightarrow> Some (PyInt (if negative then - int n else int n), rest)
      | c # r \<Rightarrow>
          if c = CHR ''.'' \<or> c = CHR ''e'' \<or> c = CHR ''E'' then None
          else Some (PyInt (if negative then - int n else int n), rest))"

definition scan_digits_from :: "bool \<Rightarrow> string \<Rightarrow> (literal \<times> string) option" where
  "scan_digits_from negative s =
     (case s of
        [] \<Rightarrow> None
      | c # r \<Rightarrow>
          if c = CHR ''0'' then finish_number negative 0 r
          else if is_digit 10 c then
            finish_number negative (digits_value (takeWhile (is_digit 10) s))
              (dropWhile (is_digit 10) s)
          else None)"

definition scan_number :: "string \<Rightarrow> (literal \<times> string) option" where
  "scan_number s =
     (case s of
        [] \<Rightarrow> None
      | c # r \<Rightarrow> if c = CHR ''-'' then scan_digits_from True r else scan_digits_from False s)"

text \<open>
  The value scanner, with fuel for the recursion: \<open>scan_array\<close> reads the items of
  a list up to the closing bracket, \<open>scan_object\<close> the members of a dictionary up to
  the closing brace. A dictionary is built by assigning the members in order.
\<close>

fun scan_value :: "nat \<Rightarrow> string \<Rightarrow> (literal \<times> string) option"
  and scan_array :: "nat \<Rightarrow> string \<Rightarrow> (literal list \<times> string) option"
  and scan_object :: "nat \<Rightarrow> string \<Rightarrow> ((string \<times> literal) list \<times> string) option" where
  "scan_value 0 s = None"
| "scan_value (Suc fuel) s =
     (case s of
        [] \<Rightarrow> None
      | c # r \<Rightarrow>
          if c = CHR 0x22 then
            (case scan_string r of None \<Rightarrow> None | Some (t, rest) \<Rightarrow> Some (PyStr t, rest))
          else if c = CHR ''{'' then
            (case skip_space r of
               [] \<Rightarrow> None
             | d # r1 \<Rightarrow>
                 if d = CHR ''}'' then Some (PyDict [], r1)
                 else (case scan_object fuel (d # r1) of
                         None \<Rightarrow> None
                       | Some (kvs, rest) \<Rightarrow> Some (PyDict (assign_all [] kvs), rest)))
          else if c = CHR ''['' then
            (case skip_space r of
               [] \<Rightarrow> None
             | d # r1 \<Rightarrow>
                 if d = CHR '']'' then Some (PyList [], r1)
                 else (case scan_array fuel (d # r1) of
                         None \<Rightarrow> None
                       | Some (xs, rest) \<Rightarrow> Some (PyList xs, rest)))
          else if take 4 s = ''null'' then Some (PyNone, drop 4 s)
          else if take 4 s = ''true'' then Some (PyBool True, drop 4 s)
          else if take 5 s = ''false'' then Some (PyBool False, drop 5 s)
          else scan_number s)"
| "scan_array 0 s = None"
| "scan_array (Suc fuel) s =
     (case scan_value fuel s of
        None \<Rightarrow> None
      | Some (x, r) \<Rightarrow>
          (case skip_space r of
             [] \<Rightarrow> None
           | c # r1 \<Rightarrow>
               if c = CHR '']'' then Some ([x], r1)
               else if c = CHR '','' then
                 (case scan_array fuel (skip_space r1) of
                    None \<Rightarrow> None
                  | Some (xs, rest) \<Rightarrow> Some (x # xs, rest))
               else None))"
| "scan_object 0 s = None"
| "scan_object (Suc fuel) s =
     (case s of
        [] \<Rightarrow> None
      | q # r \<Rightarrow>
          if q \<noteq> CHR 0x22 then None
          else (case scan_string r of
                  None \<Rightarrow> None
                | Some (k, r1) \<Rightarrow>
                    (case skip_space r1 of
                       [] \<Rightarrow> None
                     | c # r2 \<Rightarrow>
                         if c \<noteq> CHR '':'' then None
                         else (case scan_value fuel (skip_space r2) of
                                 None \<Rightarrow> None
                               | Some (v, r3) \<Rightarrow>
                                   (case skip_space r3 of
                                      [] \<Rightarrow> None
                                    | d # r4 \<Rightarrow>
                                        if d = CHR ''}'' then Some ([(k, v)], r4)
                                        else if d = CHR '','' then
                                          (case scan_object fuel (skip_space r4) of
                                             None \<Rightarrow> None
                                           | Some (kvs, rest) \<Rightarrow> Some ((k, v) # kvs, rest))
                                        else None)))))"

definition json_loads :: "string \<Rightarrow> literal option" where
  "json_loads s =
     (case scan_value (length s) (skip_space s) of
        None \<Rightarrow> None
      | Some (obj, rest) \<Rightarrow> if skip_space rest = [] then Some obj else None)"

text \<open>The fuel that scanning the encoding of a literal takes at most.\<close>

fun fuel_of :: "literal \<Rightarrow> nat"
  and fuel_of_list :: "literal list \<Rightarrow> nat"
  and fuel_of_items :: "(string \<times> literal) list \<Rightarrow> nat" where
  "fuel_of PyNone = 1"
| "fuel_of (PyBool b) = 1"
| "fuel_of (PyInt i) = 1"
| "fuel_of (PyStr s) = 1"
| "fuel_of (PyList xs) = Suc (fuel_of_list xs)"
| "fuel_of (PyDict kvs) = Suc (fuel_of_items kvs)"
| "fuel_of_list [] = 0"
| "fuel_of_list (x # xs) = Suc (fuel_of x + fuel_of_list xs)"
| "fuel_of_items [] = 0"
| "fuel_of_items (kv # kvs) = Suc (fuel_of (snd kv) + fuel_of_items kvs)"

text \<open>
  Where values start and end in an encoded text: a number ends before a character
  that is no digit and starts no fraction or exponent; what follows an encoded
  value is the end of the text, a comma or a line break; and a value starts with a
  character that is not white space and closes no list or dictionary.
\<close>

definition number_end :: "string \<Rightarrow> bool" where
  "number_end r =
     (case r of
        [] \<Rightarrow> True
      | c # _ \<Rightarrow> \<not> is_digit 10 c \<and> c \<noteq> CHR ''.'' \<and> c \<noteq> CHR ''e'' \<and> c \<noteq> CHR ''E'')"

definition follows :: "string \<Rightarrow> bool" where
  "follows r = (case r of [] \<Rightarrow> True | c # _ \<Rightarrow> c = CHR '','' \<or> c = CHR 0x0A)"

definition starts_value :: "string \<Rightarrow> bool" where
  "starts_value s =
     (case s of
        [] \<Rightarrow> False
      | c # _ \<Rightarrow> \<not> is_json_space c \<and> c \<noteq> CHR '']'' \<and> c \<noteq> CHR ''}'')"

text \<open>A report of one problem with two results, one of them with details and a log.\<close>

definition example_report :: "Result list AssignmentReport" where
  "example_report =
     [(''hw1_sort'',
       [\<lparr>name = ''test_pass'', status = ''passed'', details = [], log = []\<rparr>,
        \<lparr>name = ''test_fault'', status = ''failed'',
         details = [(''code'', PyInt (- 11)), (''timeout'', PyBool False), (''expected'', PyNone)],
         log = [PyStr ''received return code'', PyStr [CHR 0x09, CHR 0x22, CHR ''a'', CHR 0xE9]]\<rparr>]),
      (''hw1_heap'', [])]"

section \<open>Properties of the memory-analysis adapter\<close>

subsection \<open>Evaluating the conversions used below\<close>

lemma py_int_128: "py_int 10 (Some ''128'') = Inr 128"
  by (simp add: py_int_def py_int_str_def is_space_def is_digit_def digit_value_def)

lemma py_int_2: "py_int 10 (Some ''2'') = Inr 2"
  by (simp add: py_int_def py_int_str_def is_space_def is_digit_def digit_value_def)

lemma py_int_1: "py_int 10 (Some ''1'') = Inr 1"
  by (simp add: py_int_def py_int_str_def is_space_def is_digit_def digit_value_def)

lemma py_int_0x1: "py_int 16 (Some ''0x1'') = Inr 1"
  by (simp add: py_int_def py_int_str_def is_space_def is_digit_def digit_value_def)

lemma py_int_0x2: "py_int 16 (Some ''0x2'') = Inr 2"
  by (simp add: py_int_def py_int_str_def is_space_def is_digit_def digit_value_def)

subsection \<open>The summing loop\<close>

lemma carries_field_int:
  "carries e b k \<Longrightarrow> field_int e ''leakedbytes'' = Inr b \<and> field_int e ''leakedblocks'' = Inr k"
  by (auto simp: carries_def field_int_def split: option.splits)

lemma lacks_field_int:
  "lacks_leak_field e \<Longrightarrow>
   (\<exists>x. field_int e ''leakedbytes'' = Inl x) \<or> (\<exists>x. field_int e ''leakedblocks'' = Inl x)"
  by (auto simp: lacks_leak_field_def field_int_def split: option.splits)

lemma memory_lost_loop_sum:
  "\<forall>e\<in>set es. is_leak e \<longrightarrow> carries e (lb e) (lk e) \<Longrightarrow>
   memory_lost_loop es b k =
     Inr (b + sum_list (map lb (filter is_leak es)), k + sum_list (map lk (filter is_leak es)))"
  by (induction es arbitrary: b k) (auto dest: carries_field_int)

lemma memory_lost_loop_filter:
  "memory_lost_loop es b k = memory_lost_loop (filter is_leak es) b k"
  by (induction es arbitrary: b k) (auto split: sum.splits)

lemma memory_lost_loop_raises:
  "e \<in> set es \<Longrightarrow> is_leak e \<Longrightarrow>
   (\<exists>x. field_int e ''leakedbytes'' = Inl x) \<or> (\<exists>x. field_int e ''leakedblocks'' = Inl x) \<Longrightarrow>
   \<exists>x. memory_lost_loop es b k = Inl x"
  by (induction es arbitrary: b k) (auto split: sum.splits)

lemma memory_lost_loop_append:
  "memory_lost_loop pre b k = Inr (b', k') \<Longrightarrow>
   memory_lost_loop (pre @ post) b k = memory_lost_loop post b' k'"
  by (induction pre arbitrary: b k) (auto split: sum.splits if_splits)

lemma memory_lost_first_offender:
  assumes "\<forall>e\<in>set pre. is_leak e \<longrightarrow> carries e (lb e) (lk e)"
  shows "\<exists>b k. memory_lost_loop (pre @ error # post) 0 0 = memory_lost_loop (error # post) b k"
  using memory_lost_loop_sum [OF assms, of 0 0] memory_lost_loop_append by blast

text \<open>
  Claim C1. For a report whose error list is a list \<open>es\<close> (it was parsed from a
  report file) and whose leak entries carry integer \<open>leakedbytes\<close> and
  \<open>leakedblocks\<close>, \<open>memory_lost()\<close> returns the pair of the sums of these values
  over exactly the entries whose kind is \<open>Leak_DefinitelyLost\<close>,
  \<open>Leak_IndirectlyLost\<close> or \<open>Leak_PossiblyLost\<close>; entries of any other kind
  contribute nothing: removing them does not change the result. For the report with one
  definite leak of 128 bytes in 2 blocks and one invalid read, the result is
  \<open>(128, 2)\<close>.
\<close>

theorem memory_lost_sums_leak_entries:
  assumes "errors self = Some es"
    and "\<forall>e\<in>set es. is_leak e \<longrightarrow> carries e (lb e) (lk e)"
  shows "memory_lost self =
           Inr (sum_list (map lb (filter is_leak es)), sum_list (map lk (filter is_leak es)))
         \<and> memory_lost self = memory_lost (self\<lparr>errors := Some (filter is_leak es)\<rparr>)
         \<and> (\<forall>e. is_leak e \<longleftrightarrow>
               kind e \<in> {Some ''Leak_DefinitelyLost'', Some ''Leak_IndirectlyLost'',
                          Some ''Leak_PossiblyLost''})"
proof -
  have sum: "memory_lost self =
      Inr (sum_list (map lb (filter is_leak es)), sum_list (map lk (filter is_leak es)))"
    using assms memory_lost_loop_sum [of es lb lk 0 0] by (simp add: memory_lost_def)
  have frame: "memory_lost self = memory_lost (self\<lparr>errors := Some (filter is_leak es)\<rparr>)"
    using assms(1) memory_lost_loop_filter [of es 0 0] by (simp add: memory_lost_def)
  have kinds: "\<forall>e. is_leak e \<longleftrightarrow>
      kind e \<in> {Some ''Leak_DefinitelyLost'', Some ''Leak_IndirectlyLost'', Some ''Leak_PossiblyLost''}"
    by (auto simp: is_leak_def LEAK_KINDS_def split: option.splits)
  from sum frame kinds show ?thesis by blast
qed

theorem memory_lost_sums_leak_entries_witness:
  "carries
     \<lparr>unique = 1, tid = 1, kind = Some ''Leak_DefinitelyLost'',
      what = Some \<lparr>what_text = Some '''',
                   what_fields = [''leakedbytes'' \<mapsto> Some ''128'',
                                  ''leakedblocks'' \<mapsto> Some ''2'']\<rparr>\<rparr> 128 2
   \<and> memory_lost
     \<lparr>runtime = (),
      errors = Some
        [\<lparr>unique = 1, tid = 1, kind = Some ''Leak_DefinitelyLost'',
          what = Some \<lparr>what_text = Some '''',
                       what_fields = [''leakedbytes'' \<mapsto> Some ''128'',
                                      ''leakedblocks'' \<mapsto> Some ''2'']\<rparr>\<rparr>,
         \<lparr>unique = 2, tid = 1, kind = Some ''InvalidRead'', what = None\<rparr>]\<rparr>
   = Inr (128, 2)"
proof -
  let ?leak = "\<lparr>unique = 1, tid = 1, kind = Some ''Leak_DefinitelyLost'',
      what = Some \<lparr>what_text = Some '''',
                   what_fields = [''leakedbytes'' \<mapsto> Some ''128'',
                                  ''leakedblocks'' \<mapsto> Some ''2'']\<rparr>\<rparr>"
  let ?read = "\<lparr>unique = 2, tid = 1, kind = Some ''InvalidRead'', what = None\<rparr>"
  have c: "carries ?leak 128 2"
    by (simp add: carries_def py_int_128 py_int_2)
  have other: "\<not> is_leak ?read" and leak: "is_leak ?leak"
    by (simp_all add: is_leak_def LEAK_KINDS_def)
  have all: "\<forall>e\<in>set [?leak, ?read]. is_leak e \<longrightarrow> carries e 128 2"
    using c other by simp
  have "memory_lost \<lparr>runtime = (), errors = Some [?leak, ?read]\<rparr> = Inr (128, 2)"
    using memory_lost_sums_leak_entries
      [of "\<lparr>runtime = (), errors = Some [?leak, ?read]\<rparr>" "[?leak, ?read]"
          "\<lambda>_. 128" "\<lambda>_. 2", OF _ all] leak other
    by simp
  with c show ?thesis by blast
qed

text \<open>
  Claim C2. When the process runner returns a Runtime and the report file does not
  exist afterwards, \<open>run\<close> returns (it does not raise) the report made of that
  Runtime and a null error list, and leaves the file system as the process left it.
\<close>

theorem valgrind_run_absent_file:
  assumes "runner (VALGRIND_ARGS @ [''--xml-file='' @ VALGRIND_XML_FILE] @ args) limit fs0
             = (Inr rt, fs1)"
    and "fs1 VALGRIND_XML_FILE = None"
  shows "valgrind_run runner args limit fs0 = (Inr \<lparr>runtime = rt, errors = None\<rparr>, fs1)"
  using assms by (simp add: valgrind_run_def)

theorem valgrind_run_absent_file_witness:
  "valgrind_run (\<lambda>cmd t fs. (Inr cmd, fs)) [''./program''] (1::nat) Map.empty
     = (Inr \<lparr>runtime = VALGRIND_ARGS @ [''--xml-file='' @ VALGRIND_XML_FILE] @ [''./program''],
             errors = None\<rparr>, Map.empty)"
  using valgrind_run_absent_file
    [of "\<lambda>cmd t fs. (Inr cmd, fs)" "[''./program'']" "1::nat" Map.empty
        "VALGRIND_ARGS @ [''--xml-file='' @ VALGRIND_XML_FILE] @ [''./program'']" Map.empty]
  by simp

text \<open>
  Claim C3. The claim says that the explanation of an error entry is the text of its
  \<open>what\<close> element whenever one is present. The code selects the element with
  \<open>element.find("what") or element.find("xwhat")\<close>, and an element without child
  elements is false: a \<open>what\<close> element that holds only text is passed over, and when
  there is no \<open>xwhat\<close> element beside it the entry is loaded with no explanation at
  all. The invalid-read entry \<open>invalid_read_element\<close> is loaded so.
\<close>

theorem what_element_dropped:
  assumes "find_child element ''what'' = Some w"
    and "children w = []"
    and "find_child element ''xwhat'' = None"
    and "ValgrindError_load element = Inr error"
  shows "what error = None"
  using assms
  by (auto simp: ValgrindError_load_def py_or_def ValgrindWhat_load_def split: sum.splits)

theorem what_element_dropped_witness:
  "find_child invalid_read_element ''what'' = Some (Element ''what'' (Some ''Invalid read of size 4'') [])
   \<and> ValgrindError_load invalid_read_element =
       Inr \<lparr>unique = 1, tid = 1, kind = Some ''InvalidRead'', what = None\<rparr>"
proof -
  have w: "find_child invalid_read_element ''what''
             = Some (Element ''what'' (Some ''Invalid read of size 4'') [])"
    and x: "find_child invalid_read_element ''xwhat'' = None"
    by (simp_all add: invalid_read_element_def find_child_def)
  obtain error where l: "ValgrindError_load invalid_read_element = Inr error"
    and f: "unique error = 1" "tid error = 1" "kind error = Some ''InvalidRead''"
    by (simp add: ValgrindError_load_def invalid_read_element_def find_text_def find_child_def
        py_int_0x1 py_int_1)
  have "what error = None"
    using what_element_dropped [OF w _ x l] by simp
  with f have "error = \<lparr>unique = 1, tid = 1, kind = Some ''InvalidRead'', what = None\<rparr>"
    by simp
  with w l show ?thesis by simp
qed

lemma xwhat_loaded:
  "ValgrindError_load leak_element =
     Inr \<lparr>unique = 2, tid = 1, kind = Some ''Leak_DefinitelyLost'',
          what = Some \<lparr>what_text = Some ''definitely lost'',
                       what_fields = [''leakedbytes'' \<mapsto> Some ''128'',
                                      ''leakedblocks'' \<mapsto> Some ''2'']\<rparr>\<rparr>"
  by (simp add: ValgrindError_load_def leak_element_def
      find_text_def find_child_def py_or_def ValgrindWhat_load_def py_int_0x2 py_int_1)

lemma invalid_read_loaded:
  "ValgrindError_load invalid_read_element =
     Inr \<lparr>unique = 1, tid = 1, kind = Some ''InvalidRead'', what = None\<rparr>"
  by (simp add: ValgrindError_load_def invalid_read_element_def
      find_text_def find_child_def py_or_def ValgrindWhat_load_def py_int_0x1 py_int_1)

text \<open>
  Claim C4, as stated, fails: when the report file exists but parsing it raises (the
  document is not well formed, or an error element has no \<open>unique\<close> child), the
  exception leaves \<open>run\<close> before the file is removed, and the file is still there.
\<close>

theorem valgrind_run_parse_failure_keeps_file:
  "valgrind_run (\<lambda>cmd t fs. (Inr (), fs(VALGRIND_XML_FILE \<mapsto> Malformed))) [''./program''] (1::nat)
       Map.empty
     = (Inl ParseError, [VALGRIND_XML_FILE \<mapsto> Malformed])
   \<and> valgrind_run
       (\<lambda>cmd t fs. (Inr (), fs(VALGRIND_XML_FILE \<mapsto>
            Document (Element ''valgrindoutput'' None [Element ''error'' None []]))))
       [''./program''] (1::nat) Map.empty
     = (Inl AttributeError,
        [VALGRIND_XML_FILE \<mapsto> Document (Element ''valgrindoutput'' None [Element ''error'' None []])])"
  by (simp add: valgrind_run_def ValgrindError_load_def find_text_def find_child_def)

text \<open>
  Claim C4, amended. Whenever \<open>run\<close> returns a report, the report file does not
  exist on return; and when the file exists after the process and its error
  elements load without an exception, \<open>run\<close> returns the report of the parsed
  entries and the file system with exactly that file removed.
\<close>

theorem valgrind_run_deletes_file:
  "(valgrind_run runner args limit fs0 = (Inr report, fs2) \<longrightarrow> fs2 VALGRIND_XML_FILE = None)
   \<and> (runner (VALGRIND_ARGS @ [''--xml-file='' @ VALGRIND_XML_FILE] @ args) limit fs0
          = (Inr rt, fs1)
        \<and> fs1 VALGRIND_XML_FILE = Some (Document root)
        \<and> load_errors (children root) [] = Inr errs
      \<longrightarrow> valgrind_run runner args limit fs0
            = (Inr \<lparr>runtime = rt, errors = Some errs\<rparr>, fs1(VALGRIND_XML_FILE := None)))"
  by (auto simp: valgrind_run_def split: prod.splits sum.splits option.splits content.splits)

theorem valgrind_run_deletes_file_witness:
  "valgrind_run
     (\<lambda>cmd t fs. (Inr (), fs(VALGRIND_XML_FILE \<mapsto>
          Document (Element ''valgrindoutput'' None [leak_element, invalid_read_element]))))
     [''./program''] (1::nat) [''other.txt'' \<mapsto> Malformed]
   = (Inr \<lparr>runtime = (),
           errors = Some
             [\<lparr>unique = 2, tid = 1, kind = Some ''Leak_DefinitelyLost'',
               what = Some \<lparr>what_text = Some ''definitely lost'',
                            what_fields = [''leakedbytes'' \<mapsto> Some ''128'',
                                           ''leakedblocks'' \<mapsto> Some ''2'']\<rparr>\<rparr>,
              \<lparr>unique = 1, tid = 1, kind = Some ''InvalidRead'', what = None\<rparr>]\<rparr>,
      [''other.txt'' \<mapsto> Malformed])"
proof -
  let ?root = "Element ''valgrindoutput'' None [leak_element, invalid_read_element]"
  let ?run = "\<lambda>(cmd::string list) (t::nat) (fs::fs).
     (Inr () :: py_error + unit, fs(VALGRIND_XML_FILE \<mapsto> Document ?root))"
  have tags: "tag leak_element = ''error''" "tag invalid_read_element = ''error''"
    by (simp_all add: leak_element_def invalid_read_element_def)
  have parsed: "load_errors (children ?root) [] =
     Inr [\<lparr>unique = 2, tid = 1, kind = Some ''Leak_DefinitelyLost'',
               what = Some \<lparr>what_text = Some ''definitely lost'',
                            what_fields = [''leakedbytes'' \<mapsto> Some ''128'',
                                           ''leakedblocks'' \<mapsto> Some ''2'']\<rparr>\<rparr>,
              \<lparr>unique = 1, tid = 1, kind = Some ''InvalidRead'', what = None\<rparr>]"
    by (simp add: tags xwhat_loaded invalid_read_loaded)
  have del: "([''other.txt'' \<mapsto> Malformed, VALGRIND_XML_FILE \<mapsto> Document ?root])
               (VALGRIND_XML_FILE := None)
      = [''other.txt'' \<mapsto> Malformed]"
    by (auto simp: VALGRIND_XML_FILE_def)
  show ?thesis
    using valgrind_run_deletes_file
      [where runner = ?run and args = "[''./program'']" and limit = 1
         and ?fs0.0 = "[''other.txt'' \<mapsto> Malformed]" and rt = "()"
         and ?fs1.0 = "[''other.txt'' \<mapsto> Malformed, VALGRIND_XML_FILE \<mapsto> Document ?root]"
         and root = ?root, THEN conjunct2] parsed del
    by simp
qed

text \<open>
  Claim C9. On a report whose error list is null, \<open>memory_lost()\<close> raises
  (\<open>TypeError\<close>: the loop iterates over \<open>None\<close>) and does not return \<open>(0, 0)\<close>;
  it returns a pair only when the error list is not null; and the report that
  \<open>run\<close> returns when the report file is absent is such a report.
\<close>

theorem memory_lost_null_errors:
  "(errors self = None \<longrightarrow> memory_lost self = Inl TypeError \<and> memory_lost self \<noteq> Inr (0, 0))
   \<and> (memory_lost self = Inr p \<longrightarrow> errors self \<noteq> None)
   \<and> (runner (VALGRIND_ARGS @ [''--xml-file='' @ VALGRIND_XML_FILE] @ args) limit fs0
          = (Inr rt, fs1) \<and> fs1 VALGRIND_XML_FILE = None
        \<longrightarrow> (\<exists>report. fst (valgrind_run runner args limit fs0) = Inr report
                      \<and> memory_lost report = Inl TypeError))"
  by (auto simp: memory_lost_def valgrind_run_def split: option.splits)

theorem memory_lost_null_errors_witness:
  "errors \<lparr>runtime = (), errors = None\<rparr> = None
   \<and> memory_lost \<lparr>runtime = (), errors = None\<rparr> = Inl TypeError"
  using memory_lost_null_errors [THEN conjunct1, of "\<lparr>runtime = (), errors = None\<rparr>"]
  by simp

text \<open>
  Claim C10, as stated, fails: the exception is not always a lookup error. A leak
  entry with no explanation makes \<open>memory_lost()\<close> raise \<open>AttributeError\<close>, and a
  leak entry that lacks \<open>leakedblocks\<close> and whose \<open>leakedbytes\<close> is not an integer
  makes it raise \<open>ValueError\<close>, from the conversion that comes first.
\<close>

theorem memory_lost_not_always_lookup_error:
  "is_leak \<lparr>unique = 1, tid = 1, kind = Some ''Leak_PossiblyLost'', what = None\<rparr>
   \<and> lacks_leak_field \<lparr>unique = 1, tid = 1, kind = Some ''Leak_PossiblyLost'', what = None\<rparr>
   \<and> memory_lost
        \<lparr>runtime = (),
         errors = Some [\<lparr>unique = 1, tid = 1, kind = Some ''Leak_PossiblyLost'', what = None\<rparr>]\<rparr>
       = Inl AttributeError
   \<and> \<not> is_LookupError AttributeError
   \<and> is_leak \<lparr>unique = 1, tid = 1, kind = Some ''Leak_DefinitelyLost'',
               what = Some \<lparr>what_text = Some '''',
                            what_fields = [''leakedbytes'' \<mapsto> Some ''128 bytes'']\<rparr>\<rparr>
   \<and> lacks_leak_field \<lparr>unique = 1, tid = 1, kind = Some ''Leak_DefinitelyLost'',
               what = Some \<lparr>what_text = Some '''',
                            what_fields = [''leakedbytes'' \<mapsto> Some ''128 bytes'']\<rparr>\<rparr>
   \<and> memory_lost
        \<lparr>runtime = (),
         errors = Some [\<lparr>unique = 1, tid = 1, kind = Some ''Leak_DefinitelyLost'',
               what = Some \<lparr>what_text = Some '''',
                            what_fields = [''leakedbytes'' \<mapsto> Some ''128 bytes'']\<rparr>\<rparr>]\<rparr>
       = Inl ValueError
   \<and> \<not> is_LookupError ValueError"
  by (simp add: is_leak_def LEAK_KINDS_def lacks_leak_field_def memory_lost_def field_int_def
      py_int_def py_int_str_def is_space_def is_digit_def digit_value_def)

text \<open>
  Claim C10, amended. For a report whose error list contains a leak entry with no
  explanation, or with an explanation that lacks \<open>leakedbytes\<close> or \<open>leakedblocks\<close>,
  \<open>memory_lost()\<close> raises and returns no pair: a missing value is never read as
  zero. When every leak entry before that one carries its two integers, the
  exception is \<open>AttributeError\<close> if the explanation is absent, and \<open>KeyError\<close> if
  the explanation has no \<open>leakedbytes\<close>, or has an integer \<open>leakedbytes\<close> and no
  \<open>leakedblocks\<close>, or was loaded from a \<open>what\<close> element (its field map is empty).
\<close>

theorem memory_lost_missing_field_raises:
  assumes "errors self = Some (pre @ error # post)"
    and "is_leak error"
    and "lacks_leak_field error"
  shows "(\<exists>x. memory_lost self = Inl x)
    \<and> ((\<forall>e\<in>set pre. is_leak e \<longrightarrow> carries e (lb e) (lk e)) \<longrightarrow>
            (what error = None \<longrightarrow> memory_lost self = Inl AttributeError)
          \<and> (\<forall>w. what error = Some w \<and> what_fields w ''leakedbytes'' = None
                 \<longrightarrow> memory_lost self = Inl KeyError)
          \<and> (\<forall>n. field_int error ''leakedbytes'' = Inr n \<longrightarrow> memory_lost self = Inl KeyError)
          \<and> (\<forall>el. tag el = ''what'' \<and> what error = ValgrindWhat_load (Some el)
                 \<longrightarrow> memory_lost self = Inl KeyError))"
proof -
  have "error \<in> set (pre @ error # post)"
    by simp
  then have raises: "\<exists>x. memory_lost self = Inl x"
    using assms(1) memory_lost_loop_raises [OF _ assms(2) lacks_field_int [OF assms(3)], of _ 0 0]
    by (simp add: memory_lost_def)
  have first: "(what error = None \<longrightarrow> memory_lost self = Inl AttributeError)
          \<and> (\<forall>w. what error = Some w \<and> what_fields w ''leakedbytes'' = None
                 \<longrightarrow> memory_lost self = Inl KeyError)
          \<and> (\<forall>n. field_int error ''leakedbytes'' = Inr n \<longrightarrow> memory_lost self = Inl KeyError)
          \<and> (\<forall>el. tag el = ''what'' \<and> what error = ValgrindWhat_load (Some el)
                 \<longrightarrow> memory_lost self = Inl KeyError)"
    if ok: "\<forall>e\<in>set pre. is_leak e \<longrightarrow> carries e (lb e) (lk e)"
  proof -
    obtain b k where "memory_lost self = memory_lost_loop (error # post) b k"
      using memory_lost_first_offender [OF ok, of error post] assms(1)
      by (auto simp: memory_lost_def)
    then show ?thesis
      using assms(2,3)
      by (auto simp: field_int_def lacks_leak_field_def ValgrindWhat_load_def
               split: option.splits sum.splits)
  qed
  from raises first show ?thesis by blast
qed

theorem memory_lost_missing_field_raises_witness:
  "memory_lost
     \<lparr>runtime = (),
      errors = Some
        [\<lparr>unique = 1, tid = 1, kind = Some ''InvalidRead'', what = None\<rparr>,
         \<lparr>unique = 2, tid = 1, kind = Some ''Leak_DefinitelyLost'',
          what = ValgrindWhat_load (Some (Element ''what'' (Some ''128 bytes lost'') []))\<rparr>]\<rparr>
   = Inl KeyError"
proof -
  let ?e0 = "\<lparr>unique = 1, tid = 1, kind = Some ''InvalidRead'', what = None\<rparr>"
  let ?e1 = "\<lparr>unique = 2, tid = 1, kind = Some ''Leak_DefinitelyLost'',
          what = ValgrindWhat_load (Some (Element ''what'' (Some ''128 bytes lost'') []))\<rparr>"
  let ?r = "\<lparr>runtime = (), errors = Some [?e0, ?e1]\<rparr>"
  have leak: "is_leak ?e1" and lacks: "lacks_leak_field ?e1" and other: "\<not> is_leak ?e0"
    by (simp_all add: is_leak_def LEAK_KINDS_def lacks_leak_field_def ValgrindWhat_load_def)
  have ok: "\<forall>e\<in>set [?e0]. is_leak e \<longrightarrow> carries e 0 0"
    using other by simp
  have tagged: "tag (Element ''what'' (Some ''128 bytes lost'') []) = ''what''"
    by simp
  show ?thesis
    using memory_lost_missing_field_raises
      [of ?r "[?e0]" ?e1 "[]" "\<lambda>_. 0" "\<lambda>_. 0", OF _ leak lacks] ok tagged
    by simp
qed

section \<open>Properties of grading an assignment\<close>

lemma keys_setitem:
  "keys (setitem reports key v) = (if key \<in> set (keys reports) then keys reports else keys reports @ [key])"
  by (induction reports key v rule: setitem.induct) (auto simp: keys_def)

lemma distinct_setitem:
  "distinct (keys reports) \<Longrightarrow> distinct (keys (setitem reports key v))"
  by (simp add: keys_setitem)

lemma getitem_setitem:
  "getitem (setitem reports key v) = (getitem reports)(key \<mapsto> v)"
  by (induction reports key v rule: setitem.induct) (auto simp: getitem_def)

lemma setitem_new:
  "key \<notin> set (keys reports) \<Longrightarrow> setitem reports key v = reports @ [(key, v)]"
  by (induction reports key v rule: setitem.induct) (auto simp: keys_def)

lemma run_problems_assign_all:
  "\<forall>p\<in>set ps. grader p (submission_of joinpath path p) \<lparr>options = opts\<rparr> = Inr (res p) \<Longrightarrow>
   run_problems joinpath ps path opts reports =
     Inr (assign_all reports (map (\<lambda>p. (short p, res p)) ps))"
  by (induction ps arbitrary: reports) (auto simp: assign_all_def submission_of_def)

lemma set_first_occurrences: "set (first_occurrences xs) = set xs"
  by (induction xs) auto

lemma distinct_first_occurrences: "distinct (first_occurrences xs)"
  by (induction xs) auto

lemma first_occurrences_distinct: "distinct xs \<Longrightarrow> first_occurrences xs = xs"
  by (induction xs) (auto simp: set_first_occurrences filter_id_conv)

lemma assign_all_Cons:
  "assign_all reports (kv # kvs) = assign_all (setitem reports (fst kv) (snd kv)) kvs"
  by (simp add: assign_all_def split_beta)

lemma keys_assign_all:
  "keys (assign_all reports kvs) =
     keys reports @ filter (\<lambda>k. k \<notin> set (keys reports)) (first_occurrences (map fst kvs))"
proof (induction kvs arbitrary: reports)
  case Nil
  then show ?case by (simp add: assign_all_def)
next
  case (Cons kv kvs)
  show ?case
  proof (cases "fst kv \<in> set (keys reports)")
    case True
    then have "(\<lambda>y. y \<noteq> fst kv \<and> y \<notin> set (keys reports)) = (\<lambda>y. y \<notin> set (keys reports))"
      by auto
    with True show ?thesis
      using Cons.IH [of "setitem reports (fst kv) (snd kv)"]
      by (simp add: assign_all_Cons keys_setitem)
  next
    case False
    then show ?thesis
      using Cons.IH [of "setitem reports (fst kv) (snd kv)"]
      by (simp add: assign_all_Cons keys_setitem conj_commute)
  qed
qed

lemma getitem_assign_all:
  "getitem (assign_all reports kvs) = getitem reports ++ map_of (rev kvs)"
  by (induction kvs arbitrary: reports)
    (auto simp: assign_all_Cons getitem_setitem map_add_def fun_eq_iff assign_all_def
          split: option.splits)

lemma assign_all_distinct:
  "distinct (keys reports @ map fst kvs) \<Longrightarrow> assign_all reports kvs = reports @ kvs"
  by (induction kvs arbitrary: reports) (auto simp: assign_all_Cons setitem_new keys_def assign_all_def)

text \<open>
  Claim C5. When the grader of every automated problem returns, \<open>run\<close> returns a
  report whose keys are exactly the short names of the assignment's automated
  problems, in the assignment's order (each name at its first occurrence), and each
  key maps to what the grader of the last automated problem of that name returned.
  When the short names are distinct, the report is, in order, the list of the
  automated problems' short names paired with their graders' results.
\<close>

theorem grade_run_keys_in_assignment_order:
  assumes "\<forall>p\<in>set (automated_problems assignment).
             grader p (submission_of joinpath path p) \<lparr>options = opts\<rparr> = Inr (res p)"
  shows "\<exists>reports.
           grade_run joinpath assignment path opts = Inr reports
         \<and> keys reports = first_occurrences (map short (automated_problems assignment))
         \<and> set (keys reports) = short ` set (automated_problems assignment)
         \<and> getitem reports
             = map_of (rev (map (\<lambda>p. (short p, res p)) (automated_problems assignment)))
         \<and> (distinct (map short (automated_problems assignment)) \<longrightarrow>
               reports = map (\<lambda>p. (short p, res p)) (automated_problems assignment)
             \<and> (\<forall>p\<in>set (automated_problems assignment). getitem reports (short p) = Some (res p)))"
proof -
  let ?ps = "automated_problems assignment"
  let ?kvs = "map (\<lambda>p. (short p, res p)) ?ps"
  let ?reports = "assign_all [] ?kvs"
  have shorts: "map fst ?kvs = map short ?ps"
    by (simp add: comp_def)
  have run: "grade_run joinpath assignment path opts = Inr ?reports"
    using run_problems_assign_all [OF assms, of "[]"]
    by (simp add: grade_run_def automated_problems_def)
  have order: "keys ?reports = first_occurrences (map short ?ps)"
    using keys_assign_all [of "[]" ?kvs] unfolding shorts by (simp add: keys_def)
  have exact: "set (keys ?reports) = short ` set ?ps"
    by (simp add: order set_first_occurrences)
  have looked: "getitem ?reports = map_of (rev ?kvs)"
  proof -
    have "getitem ([] :: 'd AssignmentReport) = Map.empty"
      by (simp add: getitem_def fun_eq_iff)
    then show ?thesis
      using getitem_assign_all [of "[]" ?kvs] by simp
  qed
  have whole: "?reports = ?kvs \<and> (\<forall>p\<in>set ?ps. getitem ?reports (short p) = Some (res p))"
    if d: "distinct (map short ?ps)"
  proof -
    have eq: "?reports = ?kvs"
      using assign_all_distinct [of "[]" ?kvs] d by (simp add: keys_def comp_def)
    have "map_of ?kvs (short p) = Some (res p)" if "p \<in> set ?ps" for p
      using d that by (intro map_of_is_SomeI) (auto simp: comp_def)
    with eq show ?thesis
      by (simp add: getitem_def)
  qed
  from run order exact looked whole show ?thesis
    by blast
qed

theorem grade_run_keys_in_assignment_order_witness:
  "grade_run (\<lambda>a b. a @ ''/'' @ b) example_assignment ''sub'' ()
     = Inr [(''hw1_sort'', [''sub/sort'', ''passed'']), (''hw1_heap'', [''sub/heap'', ''failed''])]
   \<and> keys [(''hw1_sort'', [''sub/sort'', ''passed'']), (''hw1_heap'', [''sub/heap'', ''failed''])]
     = [''hw1_sort'', ''hw1_heap'']"
proof -
  let ?join = "\<lambda>(a::string) b. a @ ''/'' @ b"
  let ?res = "\<lambda>p::(string, string, unit, string list) GradingProblem.
     [?join ''sub'' (relative_path p), if short p = ''hw1_sort'' then ''passed'' else ''failed'']"
  have autos: "map short (automated_problems example_assignment) = [''hw1_sort'', ''hw1_heap'']"
    by (simp add: automated_problems_def example_assignment_def)
  have ok: "\<forall>p\<in>set (automated_problems example_assignment).
      grader p (submission_of ?join ''sub'' p) \<lparr>options = ()\<rparr> = Inr (?res p)"
    by (simp add: automated_problems_def example_assignment_def submission_of_def)
  have d: "distinct (map short (automated_problems example_assignment))"
    by (simp add: autos)
  obtain reports where
    "grade_run ?join example_assignment ''sub'' () = Inr reports"
    "reports = map (\<lambda>p. (short p, ?res p)) (automated_problems example_assignment)"
    using grade_run_keys_in_assignment_order [OF ok] d by blast
  then show ?thesis
    by (simp add: automated_problems_def example_assignment_def keys_def)
qed

section \<open>Properties of the command-line plugin\<close>

text \<open>
  What \<open>single\<close> does with a grader that returns: the grader runs once, with the
  context of the absolute target path and the remaining arguments, and the dumped
  report is written as JSON to the report path.
\<close>

lemma single_writes_report:
  assumes "a ''target'' = Some t" and "a ''report'' = Some path"
    and "the_grader \<lparr>target = absolute t, target_options = a(''target'' := None)\<rparr> = Inr report"
  shows "single absolute the_grader dump dumps a fs = (Inr (), fs(path \<mapsto> dumps (dump report)))"
  using assms by (simp add: single_def pop_def)

lemma GradePlugin_run_bound_grader:
  assumes "a ''command'' = Some ''single''" and "globals ''grader'' = Some the_grader"
  shows "GradePlugin_run globals absolute dump dumps summarize a fs
           = single absolute the_grader dump dumps (a(''command'' := None)) fs"
  using assms by (simp add: GradePlugin_run_def pop_def)

text \<open>
  Claim C6. The claim says that \<open>grade single <target> <report>\<close> runs the grader
  on the target and writes the report, exiting with 0. In the module, \<open>run\<close> passes
  the name \<open>grader\<close>, which nothing binds: for every argument dictionary whose
  command is \<open>single\<close> the lookup raises \<open>NameError\<close>, no grader runs, no file is
  written, and the exit status is 1. So it is for the invocation
  \<open>grade single submission report.json\<close>.
\<close>

theorem GradePlugin_run_single_raises_NameError:
  assumes "a ''command'' = Some ''single''"
  shows "GradePlugin_run plugin_globals absolute dump dumps summarize a fs = (Inl NameError, fs)
         \<and> exit_code (fst (GradePlugin_run plugin_globals absolute dump dumps summarize a fs)) = 1
         \<and> ''grader'' \<notin> set plugin_module_names"
  using assms
  by (simp add: GradePlugin_run_def pop_def plugin_globals_def exit_code_def plugin_module_names_def)

theorem GradePlugin_run_single_raises_NameError_witness:
  "GradePlugin_run plugin_globals (\<lambda>s. ''/home/grader/'' @ s)
       (\<lambda>report :: string. report) (\<lambda>j. j) (\<lambda>g a fs. (Inr (), fs))
       [''command'' \<mapsto> ''single'', ''target'' \<mapsto> ''submission'', ''report'' \<mapsto> ''report.json'']
       Map.empty
     = (Inl NameError, Map.empty)"
  using GradePlugin_run_single_raises_NameError
    [of "[''command'' \<mapsto> ''single'', ''target'' \<mapsto> ''submission'', ''report'' \<mapsto> ''report.json'']"
        "\<lambda>s. ''/home/grader/'' @ s" "\<lambda>report :: string. report" "\<lambda>j. j"
        "\<lambda>g a fs. (Inr (), fs)" Map.empty]
  by simp

section \<open>Properties of the process runner\<close>

text \<open>
  Claim C7. For the process runner as the spec describes it: a child that a signal
  ends before the deadline gives a Runtime whose exit code is the negative signal
  number (\<open>-11\<close> for a segmentation fault) and whose timeout flag is off; when the
  deadline passes before the child ends, the runner terminates the processes of the
  child's tree, the Runtime has the timeout flag on, its exit code is undefined
  (\<open>None\<close>) and its output is what the child had produced by the deadline; the
  timeout flag implies the undefined code. On a Runtime with code \<open>-11\<close>,
  \<open>test_fault\<close> returns a failing result and the last line of its log is the
  segmentation-fault note.
\<close>

theorem process_run_signal_and_timeout:
  "(ends c = Some (t, Signaled signum) \<and> t < deadline \<longrightarrow>
      code (fst (process_run c deadline)) = Some (- int signum)
    \<and> \<not> timeout (fst (process_run c deadline)))
   \<and> (ends c = None \<or> (\<exists>t' e. ends c = Some (t', e) \<and> \<not> t' < deadline) \<longrightarrow>
      timeout (fst (process_run c deadline))
    \<and> code (fst (process_run c deadline)) = None
    \<and> stdout (fst (process_run c deadline)) = stdout_by c deadline
    \<and> stderr (fst (process_run c deadline)) = stderr_by c deadline
    \<and> snd (process_run c deadline) = set (tree c))
   \<and> (timeout (fst (process_run c deadline)) \<longrightarrow> code (fst (process_run c deadline)) = None)
   \<and> (ends c = Some (t, Signaled 11) \<and> t < deadline \<longrightarrow>
      \<not> passing (fst (test_fault (\<lambda>args limit. fst (process_run c limit)) deadline log0))
    \<and> code (result_runtime (fst (test_fault (\<lambda>args limit. fst (process_run c limit)) deadline log0)))
        = Some (- 11)
    \<and> last (snd (test_fault (\<lambda>args limit. fst (process_run c limit)) deadline log0))
        = (4, [Text ''segmentation fault'']))"
  by (auto simp: process_run_def expired_def exit_code_of_def test_fault_def Let_def
           split: option.splits)

theorem process_run_signal_and_timeout_witness:
  "code (fst (process_run segfault_child 1000)) = Some (- 11)
   \<and> test_fault (\<lambda>args limit. fst (process_run segfault_child limit)) 1000 []
       = (\<lparr>passing = False,
           result_runtime = \<lparr>stdout = ''starting'', stderr = [], code = Some (- 11), elapsed = 20,
                             timeout = False\<rparr>\<rparr>,
          [(2, [Text ''received return code'', Code (Some (- 11))]),
           (4, [Text ''segmentation fault''])])
   \<and> process_run hanging_child 1000
       = (\<lparr>stdout = ''starting'', stderr = [], code = None, elapsed = 1000, timeout = True\<rparr>,
          {4242, 4243})"
proof -
  have seg: "ends segfault_child = Some (20, Signaled 11) \<and> (20::nat) < 1000"
    by (simp add: segfault_child_def)
  have hang: "ends hanging_child = None"
    by (simp add: hanging_child_def)
  have a: "code (fst (process_run segfault_child 1000)) = Some (- 11)"
    using process_run_signal_and_timeout [of segfault_child 20 11 1000] seg by simp
  have b: "timeout (fst (process_run hanging_child 1000))
      \<and> code (fst (process_run hanging_child 1000)) = None
      \<and> snd (process_run hanging_child 1000) = set (tree hanging_child)"
    using process_run_signal_and_timeout [of hanging_child _ _ 1000] hang by simp
  have c: "test_fault (\<lambda>args limit. fst (process_run segfault_child limit)) 1000 []
       = (\<lparr>passing = False,
           result_runtime = \<lparr>stdout = ''starting'', stderr = [], code = Some (- 11), elapsed = 20,
                             timeout = False\<rparr>\<rparr>,
          [(2, [Text ''received return code'', Code (Some (- 11))]),
           (4, [Text ''segmentation fault''])])"
    by (simp add: test_fault_def process_run_def segfault_child_def exit_code_of_def Let_def)
  have d: "process_run hanging_child 1000
       = (\<lparr>stdout = ''starting'', stderr = [], code = None, elapsed = 1000, timeout = True\<rparr>,
          {4242, 4243})"
    by (simp add: process_run_def hanging_child_def expired_def)
  from a c d show ?thesis by simp
qed

section \<open>Properties of dumping a report and reading it back\<close>

subsection \<open>Numbers\<close>

lemma of_char_digit: "(d::nat) < 10 \<Longrightarrow> (of_char (char_of (48 + d)) :: nat) = 48 + d"
  by simp

lemma digit_value_digit: "(d::nat) < 10 \<Longrightarrow> digit_value (char_of (48 + d)) = d"
  by (simp add: digit_value_def Let_def)

lemma is_digit_digit: "(d::nat) < 10 \<Longrightarrow> is_digit 10 (char_of (48 + d))"
  by (simp add: is_digit_def digit_value_digit)

lemma digits_of_small: "n < 10 \<Longrightarrow> digits_of n = [char_of (48 + n)]"
  by (simp add: digits_of.simps)

lemma digits_of_large:
  "\<not> n < 10 \<Longrightarrow> digits_of n = digits_of (n div 10) @ [char_of (48 + n mod 10)]"
  by (subst digits_of.simps) simp

lemma digits_of_not_Nil: "digits_of n \<noteq> []"
  by (cases "n < 10") (simp_all add: digits_of_small digits_of_large)

lemma digits_of_all_digits: "c \<in> set (digits_of n) \<Longrightarrow> is_digit 10 c"
proof (induction n arbitrary: c rule: digits_of.induct)
  case (1 n)
  show ?case
  proof (cases "n < 10")
    case True
    with 1(2) show ?thesis
      by (simp add: digits_of_small is_digit_digit)
  next
    case False
    with 1 show ?thesis
      by (auto simp: digits_of_large is_digit_digit)
  qed
qed

lemma digits_value_snoc: "digits_value (ds @ [c]) = digits_value ds * 10 + digit_value c"
  by (simp add: digits_value_def)

lemma digits_value_digits_of: "digits_value (digits_of n) = n"
proof (induction n rule: digits_of.induct)
  case (1 n)
  show ?case
  proof (cases "n < 10")
    case True
    then show ?thesis
      by (simp add: digits_of_small digits_value_def digit_value_digit)
  next
    case False
    then show ?thesis
      using 1 by (simp add: digits_of_large digits_value_snoc digit_value_digit)
  qed
qed

lemma char_is_0: "c = CHR ''0'' \<longleftrightarrow> (of_char c :: nat) = 48"
proof -
  have "(of_char (CHR ''0'') :: nat) = 48" by simp
  then show ?thesis by (metis of_char_eq_iff)
qed

lemma hd_digits_of: "0 < n \<Longrightarrow> hd (digits_of n) \<noteq> CHR ''0''"
proof (induction n rule: digits_of.induct)
  case (1 n)
  show ?case
  proof (cases "n < 10")
    case True
    with 1(2) show ?thesis
      by (simp add: digits_of_small char_is_0)
  next
    case False
    then have "0 < n div 10" by simp
    with 1(1) False have "hd (digits_of (n div 10)) \<noteq> CHR ''0''" by simp
    with False show ?thesis
      by (simp add: digits_of_large digits_of_not_Nil)
  qed
qed

lemma takeWhile_digits: "number_end r \<Longrightarrow> takeWhile (is_digit 10) (digits_of n @ r) = digits_of n"
  by (cases r) (auto simp: number_end_def takeWhile_append digits_of_all_digits)

lemma dropWhile_digits: "number_end r \<Longrightarrow> dropWhile (is_digit 10) (digits_of n @ r) = r"
  by (cases r) (auto simp: number_end_def dropWhile_append digits_of_all_digits)

lemma finish_number_end:
  "number_end r \<Longrightarrow> finish_number neg n r = Some (PyInt (if neg then - int n else int n), r)"
  by (auto simp: finish_number_def number_end_def split: list.splits)

lemma scan_digits_from_digits_of:
  assumes "number_end r"
  shows "scan_digits_from neg (digits_of n @ r)
           = Some (PyInt (if neg then - int n else int n), r)"
proof (cases "n = 0")
  case True
  have "digits_of 0 = ''0''" by code_simp
  with True assms show ?thesis
    by (simp add: scan_digits_from_def finish_number_end)
next
  case False
  obtain c cs where cs: "digits_of n = c # cs"
    using digits_of_not_Nil [of n] by (cases "digits_of n") auto
  have c0: "c \<noteq> CHR ''0''"
    using hd_digits_of [of n] False cs by simp
  have cd: "is_digit 10 c"
    using digits_of_all_digits [of c n] cs by simp
  have "scan_digits_from neg (digits_of n @ r)
      = finish_number neg (digits_value (takeWhile (is_digit 10) (digits_of n @ r)))
          (dropWhile (is_digit 10) (digits_of n @ r))"
    unfolding scan_digits_from_def cs using c0 cd by simp
  then show ?thesis
    using assms by (simp add: takeWhile_digits dropWhile_digits digits_value_digits_of finish_number_end)
qed

lemma digits_of_not_minus: "hd (digits_of n) \<noteq> CHR ''-''"
proof -
  have "is_digit 10 (hd (digits_of n))"
    using digits_of_all_digits [of "hd (digits_of n)" n] digits_of_not_Nil [of n] by simp
  moreover have "\<not> is_digit 10 (CHR ''-'')"
    by (simp add: is_digit_def digit_value_def)
  ultimately show ?thesis by metis
qed

lemma scan_number_encode_int:
  assumes "number_end r"
  shows "scan_number (encode_int i @ r) = Some (PyInt i, r)"
proof (cases "i < 0")
  case True
  then show ?thesis
    using scan_digits_from_digits_of [OF assms, of True "nat (- i)"]
    by (simp add: scan_number_def encode_int_def)
next
  case False
  obtain c cs where cs: "digits_of (nat i) = c # cs"
    using digits_of_not_Nil [of "nat i"] by (cases "digits_of (nat i)") auto
  have "c \<noteq> CHR ''-''"
    using digits_of_not_minus [of "nat i"] cs by simp
  then have "scan_number (digits_of (nat i) @ r) = scan_digits_from False (digits_of (nat i) @ r)"
    by (simp add: scan_number_def cs)
  with False show ?thesis
    using scan_digits_from_digits_of [OF assms, of False "nat i"]
    by (simp add: encode_int_def)
qed

subsection \<open>Strings\<close>

lemma hex_value_hex_digit: "n < 16 \<Longrightarrow> hex_value (hex_digit n) = Some n"
  by (auto simp: hex_value_def hex_digit_def digit_value_def Let_def)

lemma hex_value_0: "hex_value (CHR ''0'') = Some 0"
  by (simp add: hex_value_def digit_value_def)

lemma char_of_div_mod: "char_of ((of_char c :: nat) div 16 * 16 + (of_char c :: nat) mod 16) = c"
  by simp

lemma scan_string_escape:
  "scan_string (escape_char c @ rest) = cons_string c (scan_string rest)"
proof -
  consider (short) "c \<in> {CHR 0x22, CHR 0x5C, CHR 0x0A, CHR 0x0D, CHR 0x09, CHR 0x08, CHR 0x0C}"
    | (plain) "c \<notin> {CHR 0x22, CHR 0x5C, CHR 0x0A, CHR 0x0D, CHR 0x09, CHR 0x08, CHR 0x0C}"
        "32 \<le> (of_char c :: nat) \<and> (of_char c :: nat) \<le> 126"
    | (hex) "c \<notin> {CHR 0x22, CHR 0x5C, CHR 0x0A, CHR 0x0D, CHR 0x09, CHR 0x08, CHR 0x0C}"
        "\<not> (32 \<le> (of_char c :: nat) \<and> (of_char c :: nat) \<le> 126)"
    by blast
  then show ?thesis
  proof cases
    case short
    then show ?thesis
      by (auto simp: escape_char_def unescape_def)
  next
    case plain
    then show ?thesis
      by (auto simp: escape_char_def)
  next
    case hex
    have hi: "(of_char c :: nat) div 16 < 16"
    proof -
      have "(of_char c :: nat) < 256" by simp
      then show ?thesis by arith
    qed
    have lo: "(of_char c :: nat) mod 16 < 16"
      by simp
    have n: "(((0 * 16 + 0) * 16 + (of_char c :: nat) div 16) * 16 + (of_char c :: nat) mod 16)
        = of_char c"
      by simp
    show ?thesis
      using hex n
      by (simp add: escape_char_def hex_value_0 hex_value_hex_digit [OF hi]
          hex_value_hex_digit [OF lo] Let_def)
  qed
qed

lemma scan_string_body:
  "scan_string (concat (map escape_char s) @ CHR 0x22 # r) = Some (s, r)"
  by (induction s) (simp_all add: scan_string_escape cons_string_def)

lemma encode_string_Cons:
  "encode_string s @ r = CHR 0x22 # (concat (map escape_char s) @ CHR 0x22 # r)"
  by (simp add: encode_string_def)

subsection \<open>Where a value starts and ends\<close>

lemma follows_number_end: "follows r \<Longrightarrow> number_end r"
  by (auto simp: follows_def number_end_def is_digit_def digit_value_def split: list.splits)

lemma skip_space_indent: "skip_space (newline_indent level @ s) = skip_space s"
proof -
  have "\<And>x. x \<in> set (newline_indent level) \<Longrightarrow> is_json_space x"
    by (auto simp: newline_indent_def is_json_space_def)
  then show ?thesis
    unfolding skip_space_def by (rule dropWhile_append2)
qed

lemma skip_space_starts: "starts_value s \<Longrightarrow> skip_space s = s"
  by (cases s) (auto simp: starts_value_def skip_space_def)

lemma skip_space_char: "\<not> is_json_space c \<Longrightarrow> skip_space (c # s) = c # s"
  by (simp add: skip_space_def)

lemma digit_starts: "is_digit 10 c \<Longrightarrow> \<not> is_json_space c \<and> c \<noteq> CHR '']'' \<and> c \<noteq> CHR ''}''"
  by (auto simp: is_digit_def digit_value_def is_json_space_def)

lemma encode_int_starts: "starts_value (encode_int i @ r)"
proof (cases "i < 0")
  case True
  then show ?thesis
    by (simp add: encode_int_def starts_value_def is_json_space_def)
next
  case False
  obtain c cs where cs: "digits_of (nat i) = c # cs"
    using digits_of_not_Nil [of "nat i"] by (cases "digits_of (nat i)") auto
  have "is_digit 10 c"
    using digits_of_all_digits [of c "nat i"] cs by simp
  with False cs show ?thesis
    using digit_starts [of c] by (simp add: encode_int_def starts_value_def)
qed

lemma encode_string_starts: "starts_value (encode_string s @ r)"
  by (simp add: encode_string_def starts_value_def is_json_space_def)

lemma encode_starts: "starts_value (encode level v @ r)"
proof (cases v)
  case (PyList xs)
  then show ?thesis by (cases xs) (simp_all add: starts_value_def is_json_space_def)
next
  case (PyDict kvs)
  then show ?thesis by (cases kvs) (simp_all add: starts_value_def is_json_space_def)
qed (simp_all add: encode_int_starts encode_string_starts, simp_all add: starts_value_def is_json_space_def)

lemma follows_rest: "follows (encode_rest level xs @ newline_indent cl @ s)"
  by (cases xs) (simp_all add: follows_def newline_indent_def)

lemma follows_pairs: "follows (encode_pairs level kvs @ newline_indent cl @ s)"
  by (cases kvs) (simp_all add: follows_def newline_indent_def)

subsection \<open>Scanning the leaves\<close>

lemma scan_value_None: "scan_value (Suc f) (''null'' @ r) = Some (PyNone, r)"
  by simp

lemma scan_value_True: "scan_value (Suc f) (''true'' @ r) = Some (PyBool True, r)"
  by simp

lemma scan_value_False: "scan_value (Suc f) (''false'' @ r) = Some (PyBool False, r)"
  by simp

lemma scan_value_string: "scan_value (Suc f) (encode_string s @ r) = Some (PyStr s, r)"
  by (simp add: encode_string_def scan_string_body)

lemma digit_not_opening:
  "is_digit 10 c \<Longrightarrow> c \<noteq> CHR 0x22 \<and> c \<noteq> CHR ''{'' \<and> c \<noteq> CHR ''['' \<and> c \<noteq> CHR ''n''
     \<and> c \<noteq> CHR ''t'' \<and> c \<noteq> CHR ''f''"
  by (auto simp: is_digit_def digit_value_def)

lemma scan_value_int:
  assumes "follows r"
  shows "scan_value (Suc f) (encode_int i @ r) = Some (PyInt i, r)"
proof -
  obtain c cs where cs: "encode_int i @ r = c # cs" and c: "c = CHR ''-'' \<or> is_digit 10 c"
  proof (cases "i < 0")
    case True
    then show ?thesis using that by (simp add: encode_int_def)
  next
    case False
    obtain d ds where ds: "digits_of (nat i) = d # ds"
      using digits_of_not_Nil [of "nat i"] by (cases "digits_of (nat i)") auto
    have "is_digit 10 d"
      using digits_of_all_digits [of d "nat i"] ds by simp
    with False ds show ?thesis using that by (simp add: encode_int_def)
  qed
  have no_opening: "c \<noteq> CHR 0x22 \<and> c \<noteq> CHR ''{'' \<and> c \<noteq> CHR ''['' \<and> c \<noteq> CHR ''n''
     \<and> c \<noteq> CHR ''t'' \<and> c \<noteq> CHR ''f''"
    using c digit_not_opening [of c] by auto
  have "scan_value (Suc f) (c # cs) = scan_number (c # cs)"
    using no_opening by (cases cs) (auto simp: take_Suc_conv_app_nth)
  then show ?thesis
    using scan_number_encode_int [OF follows_number_end [OF assms], of i] cs by simp
qed

subsection \<open>Scanning lists and dictionaries, one step at a time\<close>

lemma scan_array_last:
  assumes "scan_value f (encode level x @ newline_indent cl @ CHR '']'' # r)
             = Some (x, newline_indent cl @ CHR '']'' # r)"
  shows "scan_array (Suc f) (encode level x @ newline_indent cl @ CHR '']'' # r) = Some ([x], r)"
  using assms by (simp add: skip_space_indent skip_space_char is_json_space_def)

lemma scan_array_step:
  assumes "scan_value f (encode level x @ CHR '','' # newline_indent level @ s)
             = Some (x, CHR '','' # newline_indent level @ s)"
    and "starts_value s"
    and "scan_array f s = Some (xs, r)"
  shows "scan_array (Suc f) (encode level x @ CHR '','' # newline_indent level @ s)
           = Some (x # xs, r)"
  using assms
  by (simp add: skip_space_indent skip_space_char skip_space_starts is_json_space_def)

lemma scan_value_list:
  assumes "scan_array f (encode (Suc level) x @ encode_rest (Suc level) xs
                          @ newline_indent level @ CHR '']'' # r) = Some (x # xs, r)"
  shows "scan_value (Suc f) (encode level (PyList (x # xs)) @ r) = Some (PyList (x # xs), r)"
proof -
  let ?s = "encode (Suc level) x @ encode_rest (Suc level) xs @ newline_indent level @ CHR '']'' # r"
  have st: "starts_value ?s"
    by (rule encode_starts)
  then obtain d r1 where d: "?s = d # r1" "d \<noteq> CHR '']''"
    by (cases ?s) (auto simp: starts_value_def)
  have "skip_space (newline_indent (Suc level) @ ?s) = d # r1"
    using st d by (simp add: skip_space_indent skip_space_starts)
  then show ?thesis
    using assms d by simp
qed

lemma scan_object_last:
  assumes "scan_value f (encode level v @ newline_indent cl @ CHR ''}'' # r)
             = Some (v, newline_indent cl @ CHR ''}'' # r)"
  shows "scan_object (Suc f) (encode_string k @ '': '' @ encode level v
                                @ newline_indent cl @ CHR ''}'' # r) = Some ([(k, v)], r)"
proof -
  have key: "scan_string (concat (map escape_char k) @ CHR 0x22 # '': '' @ encode level v
                @ newline_indent cl @ CHR ''}'' # r)
      = Some (k, '': '' @ encode level v @ newline_indent cl @ CHR ''}'' # r)"
    by (rule scan_string_body)
  have sp: "skip_space ('' '' @ encode level v @ newline_indent cl @ CHR ''}'' # r)
      = encode level v @ newline_indent cl @ CHR ''}'' # r"
    using skip_space_starts [OF encode_starts, of level v "newline_indent cl @ CHR ''}'' # r"]
    by (simp add: skip_space_def is_json_space_def)
  show ?thesis
    using key sp assms
    by (simp add: encode_string_def skip_space_indent skip_space_char is_json_space_def)
qed

lemma scan_object_step:
  assumes "scan_value f (encode level v @ CHR '','' # newline_indent level @ s)
             = Some (v, CHR '','' # newline_indent level @ s)"
    and "starts_value s"
    and "scan_object f s = Some (kvs, r)"
  shows "scan_object (Suc f) (encode_string k @ '': '' @ encode level v
                                @ CHR '','' # newline_indent level @ s) = Some ((k, v) # kvs, r)"
proof -
  let ?t = "CHR '','' # newline_indent level @ s"
  have key: "scan_string (concat (map escape_char k) @ CHR 0x22 # '': '' @ encode level v @ ?t)
      = Some (k, '': '' @ encode level v @ ?t)"
    by (rule scan_string_body)
  have sp: "skip_space ('' '' @ encode level v @ ?t) = encode level v @ ?t"
    using skip_space_starts [OF encode_starts, of level v ?t]
    by (simp add: skip_space_def is_json_space_def)
  show ?thesis
    using key sp assms
    by (simp add: encode_string_def skip_space_indent skip_space_char skip_space_starts
        is_json_space_def)
qed

lemma scan_value_dict:
  assumes "scan_object f (encode_string (fst kv) @ '': '' @ encode (Suc level) (snd kv)
                           @ encode_pairs (Suc level) kvs @ newline_indent level @ CHR ''}'' # r)
             = Some (kv # kvs, r)"
    and "distinct (map fst (kv # kvs))"
  shows "scan_value (Suc f) (encode level (PyDict (kv # kvs)) @ r) = Some (PyDict (kv # kvs), r)"
proof -
  let ?s = "encode_string (fst kv) @ '': '' @ encode (Suc level) (snd kv)
              @ encode_pairs (Suc level) kvs @ newline_indent level @ CHR ''}'' # r"
  have st: "starts_value ?s"
    by (rule encode_string_starts)
  then obtain d r1 where d: "?s = d # r1" "d \<noteq> CHR ''}''"
    by (cases ?s) (auto simp: starts_value_def)
  have sk: "skip_space (newline_indent (Suc level) @ ?s) = d # r1"
    using st d by (simp add: skip_space_indent skip_space_starts)
  have same: "assign_all [] (kv # kvs) = kv # kvs"
    using assign_all_distinct [of "[]" "kv # kvs"] assms(2) by (simp add: keys_def)
  show ?thesis
    using assms(1) d sk same by simp
qed

lemma fuel_of_pos: "0 < fuel_of v"
  by (cases v) simp_all

lemma scan_encode:
  shows "well_formed v \<Longrightarrow> fuel_of v \<le> f \<Longrightarrow> follows r \<Longrightarrow>
           scan_value f (encode level v @ r) = Some (v, r)"
    and "well_formed_list xs \<Longrightarrow>
         (\<And>f' r'. fuel_of x0 \<le> f' \<Longrightarrow> follows r' \<Longrightarrow>
                    scan_value f' (encode level x0 @ r') = Some (x0, r')) \<Longrightarrow>
         Suc (fuel_of x0 + fuel_of_list xs) \<le> f \<Longrightarrow>
           scan_array f (encode level x0 @ encode_rest level xs @ newline_indent cl @ CHR '']'' # r)
             = Some (x0 # xs, r)"
    and "well_formed_items kvs \<Longrightarrow>
         (\<And>f' r'. fuel_of v0 \<le> f' \<Longrightarrow> follows r' \<Longrightarrow>
                    scan_value f' (encode level v0 @ r') = Some (v0, r')) \<Longrightarrow>
         Suc (fuel_of v0 + fuel_of_items kvs) \<le> f \<Longrightarrow>
           scan_object f (encode_string k0 @ '': '' @ encode level v0 @ encode_pairs level kvs
                            @ newline_indent cl @ CHR ''}'' # r)
             = Some ((k0, v0) # kvs, r)"
proof (induction level v and level xs and level kvs
       arbitrary: f r and f r x0 cl and f r k0 v0 cl
       rule: encode_encode_rest_encode_pairs.induct)
  case (1 level)
  then obtain g where "f = Suc g" by (cases f) auto
  then show ?case by (simp only: encode.simps scan_value_None)
next
  case (2 level b)
  then obtain g where "f = Suc g" by (cases f) auto
  then show ?case
    by (cases b) (simp_all only: encode.simps scan_value_True scan_value_False if_True if_False)
next
  case (3 level i)
  then obtain g where "f = Suc g" by (cases f) auto
  with 3 show ?case by (simp only: encode.simps scan_value_int)
next
  case (4 level s)
  then obtain g where "f = Suc g" by (cases f) auto
  then show ?case by (simp only: encode.simps scan_value_string)
next
  case (5 level)
  then obtain g where "f = Suc g" by (cases f) auto
  then show ?case by (simp add: skip_space_char is_json_space_def)
next
  case (6 level x xs)
  from "6.prems" obtain g where f: "f = Suc g" and g: "Suc (fuel_of x + fuel_of_list xs) \<le> g"
    by (cases f) auto
  have wx: "well_formed x" and wxs: "well_formed_list xs"
    using "6.prems"(1) by simp_all
  have "scan_array g (encode (Suc level) x @ encode_rest (Suc level) xs
                        @ newline_indent level @ CHR '']'' # r) = Some (x # xs, r)"
    using "6.IH"(2) [OF wxs _ g] "6.IH"(1) [OF wx] by blast
  then show ?case
    unfolding f by (rule scan_value_list)
next
  case (7 level)
  then obtain g where "f = Suc g" by (cases f) auto
  then show ?case by (simp add: skip_space_char is_json_space_def)
next
  case (8 level kv kvs)
  from "8.prems" obtain g where f: "f = Suc g"
    and g: "Suc (fuel_of (snd kv) + fuel_of_items kvs) \<le> g"
    by (cases f) auto
  have wv: "well_formed (snd kv)" and wkvs: "well_formed_items kvs"
    and d: "distinct (map fst (kv # kvs))"
    using "8.prems"(1) by simp_all
  have "scan_object g (encode_string (fst kv) @ '': '' @ encode (Suc level) (snd kv)
                         @ encode_pairs (Suc level) kvs @ newline_indent level @ CHR ''}'' # r)
          = Some ((fst kv, snd kv) # kvs, r)"
    using "8.IH"(2) [OF wkvs _ g] "8.IH"(1) [OF wv] by blast
  then show ?case
    unfolding f using d by (intro scan_value_dict) simp_all
next
  case (9 level)
  from "9.prems" obtain g where f: "f = Suc g" and g: "fuel_of x0 \<le> g"
    by (cases f) auto
  have "follows (newline_indent cl @ CHR '']'' # r)"
    by (simp add: follows_def newline_indent_def)
  then have "scan_value g (encode level x0 @ newline_indent cl @ CHR '']'' # r)
      = Some (x0, newline_indent cl @ CHR '']'' # r)"
    using "9.prems"(2) [OF g] by blast
  then show ?case
    unfolding f by (simp only: encode_rest.simps append_Nil scan_array_last)
next
  case (10 level x xs)
  from "10.prems" obtain g where f: "f = Suc g"
    and g0: "fuel_of x0 \<le> g" and g: "Suc (fuel_of x + fuel_of_list xs) \<le> g"
    by (cases f) auto
  have wx: "well_formed x" and wxs: "well_formed_list xs"
    using "10.prems"(1) by simp_all
  let ?s = "encode level x @ encode_rest level xs @ newline_indent cl @ CHR '']'' # r"
  have tail: "scan_array g ?s = Some (x # xs, r)"
    using "10.IH"(2) [OF wxs _ g] "10.IH"(1) [OF wx] by blast
  have "follows (CHR '','' # newline_indent level @ ?s)"
    by (simp add: follows_def)
  then have head: "scan_value g (encode level x0 @ CHR '','' # newline_indent level @ ?s)
      = Some (x0, CHR '','' # newline_indent level @ ?s)"
    using "10.prems"(2) [OF g0] by blast
  have "scan_array (Suc g) (encode level x0 @ CHR '','' # newline_indent level @ ?s)
      = Some (x0 # x # xs, r)"
    using head encode_starts tail by (rule scan_array_step)
  then show ?case
    unfolding f by simp
next
  case (11 level)
  from "11.prems" obtain g where f: "f = Suc g" and g: "fuel_of v0 \<le> g"
    by (cases f) auto
  have "follows (newline_indent cl @ CHR ''}'' # r)"
    by (simp add: follows_def newline_indent_def)
  then have "scan_value g (encode level v0 @ newline_indent cl @ CHR ''}'' # r)
      = Some (v0, newline_indent cl @ CHR ''}'' # r)"
    using "11.prems"(2) [OF g] by blast
  then show ?case
    unfolding f by (simp only: encode_pairs.simps append_Nil scan_object_last)
next
  case (12 level kv kvs)
  from "12.prems" obtain g where f: "f = Suc g"
    and g0: "fuel_of v0 \<le> g" and g: "Suc (fuel_of (snd kv) + fuel_of_items kvs) \<le> g"
    by (cases f) auto
  have wv: "well_formed (snd kv)" and wkvs: "well_formed_items kvs"
    using "12.prems"(1) by simp_all
  let ?s = "encode_string (fst kv) @ '': '' @ encode level (snd kv) @ encode_pairs level kvs
              @ newline_indent cl @ CHR ''}'' # r"
  have tail: "scan_object g ?s = Some ((fst kv, snd kv) # kvs, r)"
    using "12.IH"(2) [OF wkvs _ g] "12.IH"(1) [OF wv] by blast
  have "follows (CHR '','' # newline_indent level @ ?s)"
    by (simp add: follows_def)
  then have head: "scan_value g (encode level v0 @ CHR '','' # newline_indent level @ ?s)
      = Some (v0, CHR '','' # newline_indent level @ ?s)"
    using "12.prems"(2) [OF g0] by blast
  have "scan_object (Suc g) (encode_string k0 @ '': '' @ encode level v0
                               @ CHR '','' # newline_indent level @ ?s)
      = Some ((k0, v0) # (fst kv, snd kv) # kvs, r)"
    using head encode_string_starts tail by (rule scan_object_step)
  then show ?case
    unfolding f by simp
qed

lemma encode_int_length: "Suc 0 \<le> length (encode_int i)"
proof -
  have "encode_int i \<noteq> []"
    using digits_of_not_Nil by (simp add: encode_int_def)
  then show ?thesis
    by (cases "encode_int i") simp_all
qed

lemma fuel_le_length:
  shows "fuel_of v \<le> length (encode level v)"
    and "fuel_of_list xs \<le> length (encode_rest level xs)"
    and "fuel_of_items kvs \<le> length (encode_pairs level kvs)"
proof (induction level v and level xs and level kvs rule: encode_encode_rest_encode_pairs.induct)
  case (3 level i)
  then show ?case using encode_int_length [of i] by simp
next
  case (4 level s)
  then show ?case by (simp add: encode_string_def)
qed (auto simp: newline_indent_def)

lemma well_formed_list_all: "well_formed_list xs = list_all well_formed xs"
  by (induction xs) simp_all

lemma well_formed_items_map:
  "well_formed_items (map (\<lambda>(k, x). (k, g x)) kvs) = list_all (\<lambda>(k, x). well_formed (g x)) kvs"
  by (induction kvs) (auto split: prod.splits)

lemma well_formed_Result_dump: "well_formed_result r \<Longrightarrow> well_formed (Result_dump r)"
  by (simp add: well_formed_result_def Result_dump_def)

lemma well_formed_AssignmentReport_dump:
  assumes "well_formed_report reports"
  shows "well_formed (AssignmentReport_dump reports)"
proof -
  have keys_same: "map fst (map (\<lambda>(k, results). (k, PyList (map Result_dump results))) reports)
      = keys reports"
    by (induction reports) (auto simp: keys_def)
  have "list_all (\<lambda>(k, results). well_formed (PyList (map Result_dump results))) reports"
    using assms
    by (fastforce simp: well_formed_report_def list_all_iff well_formed_list_all
        intro: well_formed_Result_dump)
  then show ?thesis
    using assms keys_same
    by (simp add: AssignmentReport_dump_def well_formed_items_map well_formed_report_def)
qed

lemma json_roundtrip:
  assumes "well_formed v"
  shows "json_loads (json_dumps v) = Some v"
proof -
  have "starts_value (encode 0 v @ [])"
    by (rule encode_starts)
  then have sk: "skip_space (encode 0 v) = encode 0 v"
    using skip_space_starts [of "encode 0 v"] by simp
  have "scan_value (length (encode 0 v)) (encode 0 v @ []) = Some (v, [])"
    using assms fuel_le_length(1) by (rule scan_encode(1)) (simp add: follows_def)
  then show ?thesis
    unfolding json_loads_def json_dumps_def sk by (simp add: skip_space_def)
qed

text \<open>
  Claim C8. For every report whose dictionaries have no key twice (as every completed
  report does), parsing the text that \<open>json.dump(report.dump(), indent=2)\<close> writes
  gives back exactly the dumped structure: the same problem short names in the same
  order, the same ordered Result arrays and the same field values.
\<close>

theorem dump_roundtrip:
  assumes "well_formed_report reports"
  shows "json_loads (json_dumps (AssignmentReport_dump reports)) = Some (AssignmentReport_dump reports)"
  using assms by (intro json_roundtrip well_formed_AssignmentReport_dump)

theorem dump_roundtrip_witness:
  "well_formed_report example_report
   \<and> json_loads (json_dumps (AssignmentReport_dump example_report))
       = Some (PyDict
           [(''hw1_sort'',
             PyList
               [PyDict [(''name'', PyStr ''test_pass''), (''status'', PyStr ''passed''),
                        (''details'', PyDict []), (''log'', PyList [])],
                PyDict [(''name'', PyStr ''test_fault''), (''status'', PyStr ''failed''),
                        (''details'',
                         PyDict [(''code'', PyInt (- 11)), (''timeout'', PyBool False),
                                 (''expected'', PyNone)]),
                        (''log'',
                         PyList [PyStr ''received return code'',
                                 PyStr [CHR 0x09, CHR 0x22, CHR ''a'', CHR 0xE9]])]]),
            (''hw1_heap'', PyList [])])"
proof -
  have wf: "well_formed_report example_report"
    by (simp add: well_formed_report_def well_formed_result_def example_report_def keys_def)
  have "AssignmentReport_dump example_report = PyDict
           [(''hw1_sort'',
             PyList
               [PyDict [(''name'', PyStr ''test_pass''), (''status'', PyStr ''passed''),
                        (''details'', PyDict []), (''log'', PyList [])],
                PyDict [(''name'', PyStr ''test_fault''), (''status'', PyStr ''failed''),
                        (''details'',
                         PyDict [(''code'', PyInt (- 11)), (''timeout'', PyBool False),
                                 (''expected'', PyNone)]),
                        (''log'',
                         PyList [PyStr ''received return code'',
                                 PyStr [CHR 0x09, CHR 0x22, CHR ''a'', CHR 0xE9]])]]),
            (''hw1_heap'', PyList [])]"
    by (simp add: AssignmentReport_dump_def Result_dump_def example_report_def)
  with wf dump_roundtrip [OF wf] show ?thesis
    by simp
qed

end
